theory Spec2Isabelle
  imports Complex_Main "HOL-Library.List_Lexorder" "HOL-Library.Char_ord" "HOL-Library.Log_Nat"
begin

section \<open>Data model\<close>

text \<open>
  The time-tracking records of the application, as the TypeScript sources read and write
  them. The minutes of a stored entry and the sums the aggregator takes of them are
  integers, and so are counts of milliseconds; the numbers the page computes from an
  edited text and hands to the server are doubles (see the section on JavaScript
  numbers). A timestamp column is the instant it denotes, in milliseconds since the epoch
  (what \<open>new Date(s).getTime()\<close> gives); a nullable column is an \<open>option\<close>. Strings are
  compared as JavaScript compares them, lexicographically by code unit.
\<close>

record TimeEntry =
  e_id :: string
  e_task_id :: string
  e_user_id :: string
  e_minutes :: int
  e_description :: "string option"
  e_started_at :: "int option"
  e_ended_at :: "int option"
  e_created_at :: int

record Task =
  t_id :: string
  t_title :: string
  t_status :: string
  t_assignee_id :: string

text \<open>\<open>TimesheetTaskData\<close> and \<open>TimesheetData\<close> of the timesheet actions. An object used
  as a dictionary from date strings to minutes is an association list in insertion order,
  which is the order in which JavaScript enumerates such keys.\<close>

record TimesheetTaskData =
  task_id :: string
  task_title :: string
  task_status :: string
  assignee_id :: string
  daily_time :: "(string \<times> int) list"
  total_minutes :: int

record TimesheetData =
  tasks :: "TimesheetTaskData list"
  daily_totals :: "(string \<times> int) list"
  week_total :: int

section \<open>Dates\<close>

text \<open>\<open>new Date(t).toISOString().split('T')[0]\<close>: the UTC calendar date of the instant
  \<open>t\<close>, written \<open>YYYY-MM-DD\<close> (with the signed six-digit year of the expanded format
  outside the years 0 to 9999).\<close>

definition msPerDay :: int where
  "msPerDay = 86400000"

definition civil_from_days :: "int \<Rightarrow> int \<times> int \<times> int" where
  "civil_from_days z =
     (let z' = z + 719468;
          era = z' div 146097;
          doe = z' mod 146097;
          yoe = (doe - doe div 1460 + doe div 36524 - doe div 146096) div 365;
          doy = doe - (365 * yoe + yoe div 4 - yoe div 100);
          mp = (5 * doy + 2) div 153;
          d = doy - (153 * mp + 2) div 5 + 1;
          m = (if mp < 10 then mp + 3 else mp - 9);
          y = yoe + era * 400 + (if m \<le> 2 then 1 else 0)
      in (y, m, d))"

definition days_from_civil :: "int \<Rightarrow> int \<Rightarrow> int \<Rightarrow> int" where
  "days_from_civil y m d =
     (let y' = (if m \<le> 2 then y - 1 else y);
          era = y' div 400;
          yoe = y' mod 400;
          doy = (153 * (if m > 2 then m - 3 else m + 9) + 2) div 5 + d - 1;
          doe = yoe * 365 + yoe div 4 - yoe div 100 + doy
      in era * 146097 + doe - 719468)"

definition digit_char :: "int \<Rightarrow> char" where
  "digit_char n = char_of (48 + n mod 10)"

fun pad_digits :: "nat \<Rightarrow> int \<Rightarrow> string" where
  "pad_digits 0 n = []"
| "pad_digits (Suc k) n = pad_digits k (n div 10) @ [digit_char n]"

definition year_string :: "int \<Rightarrow> string" where
  "year_string y =
     (if 0 \<le> y \<and> y \<le> 9999 then pad_digits 4 y
      else (if y < 0 then ''-'' else ''+'') @ pad_digits 6 \<bar>y\<bar>)"

definition toISODate :: "int \<Rightarrow> string" where
  "toISODate t =
     (case civil_from_days (t div msPerDay) of
        (y, m, d) \<Rightarrow> year_string y @ ''-'' @ pad_digits 2 m @ ''-'' @ pad_digits 2 d)"

section \<open>Objects and maps keyed by strings\<close>

text \<open>\<open>obj[k] = v\<close> and \<open>Map.set(k, v)\<close>: an existing key keeps its place and takes the
  new value, a new key goes to the end.\<close>

fun obj_set :: "('k \<times> 'v) list \<Rightarrow> 'k \<Rightarrow> 'v \<Rightarrow> ('k \<times> 'v) list" where
  "obj_set [] k v = [(k, v)]"
| "obj_set ((k', v') # kvs) k v =
     (if k' = k then (k, v) # kvs else (k', v') # obj_set kvs k v)"

text \<open>\<open>!obj[k]\<close> on a dictionary of numbers: true for a missing key and for 0.\<close>

definition falsy :: "int option \<Rightarrow> bool" where
  "falsy v = (case v of None \<Rightarrow> True | Some n \<Rightarrow> n = 0)"

text \<open>\<open>obj[k] || 0\<close>, the way every reader of these dictionaries takes a cell.\<close>

definition cell :: "(string \<times> int) list \<Rightarrow> string \<Rightarrow> int" where
  "cell obj k = (case map_of obj k of Some v \<Rightarrow> v | None \<Rightarrow> 0)"

text \<open>\<open>if (!obj[k]) obj[k] = 0; obj[k] += m\<close>. After the first statement the key is
  present, so the read of the second one never meets a missing key.\<close>

definition add_minutes :: "(string \<times> int) list \<Rightarrow> string \<Rightarrow> int \<Rightarrow> (string \<times> int) list" where
  "add_minutes obj k m =
     (let obj1 = (if falsy (map_of obj k) then obj_set obj k 0 else obj)
      in obj_set obj1 k ((case map_of obj1 k of Some v \<Rightarrow> v | None \<Rightarrow> 0) + m))"

section \<open>The timesheet aggregator (\<open>getTimesheetData\<close>)\<close>

text \<open>The date an entry is attributed to: that of \<open>started_at\<close> when it is set, of
  \<open>created_at\<close> otherwise.\<close>

definition entryDate :: "TimeEntry \<Rightarrow> string" where
  "entryDate entry =
     (case e_started_at entry of
        Some s \<Rightarrow> toISODate s
      | None \<Rightarrow> toISODate (e_created_at entry))"

definition in_range :: "string \<Rightarrow> string \<Rightarrow> TimeEntry \<Rightarrow> bool" where
  "in_range startDate endDate entry =
     (entryDate entry \<ge> startDate \<and> entryDate entry \<le> endDate)"

definition seed_row :: "Task \<Rightarrow> TimesheetTaskData" where
  "seed_row task =
     \<lparr> task_id = t_id task, task_title = t_title task, task_status = t_status task,
       assignee_id = t_assignee_id task, daily_time = [], total_minutes = 0 \<rparr>"

definition init_taskMap :: "Task list \<Rightarrow> (string \<times> TimesheetTaskData) list" where
  "init_taskMap ts = foldl (\<lambda>taskMap task. obj_set taskMap (t_id task) (seed_row task)) [] ts"

text \<open>The body of the loop over the entries. The rows of \<open>taskMap\<close> are objects that the
  loop mutates through the map; here the updated row is stored back under its key.\<close>

definition process_entry ::
  "string \<Rightarrow> string \<Rightarrow> (string \<times> TimesheetTaskData) list \<times> (string \<times> int) list \<Rightarrow> TimeEntry
     \<Rightarrow> (string \<times> TimesheetTaskData) list \<times> (string \<times> int) list" where
  "process_entry startDate endDate st entry =
     (case st of (taskMap, dailyTotals) \<Rightarrow>
        if entryDate entry \<ge> startDate \<and> entryDate entry \<le> endDate then
          (case map_of taskMap (e_task_id entry) of
             Some task \<Rightarrow>
               (obj_set taskMap (e_task_id entry)
                  (task\<lparr> daily_time := add_minutes (daily_time task) (entryDate entry) (e_minutes entry),
                         total_minutes := total_minutes task + e_minutes entry \<rparr>),
                add_minutes dailyTotals (entryDate entry) (e_minutes entry))
           | None \<Rightarrow>
               (taskMap, add_minutes dailyTotals (entryDate entry) (e_minutes entry)))
        else (taskMap, dailyTotals))"

text \<open>\<open>Array.prototype.sort\<close> with a comparator: \<open>a\<close> stays before \<open>b\<close> when
  \<open>cmp a b \<le> 0\<close>. The sort is stable; for a consistent comparator every
  implementation returns this list.\<close>

fun insort_cmp :: "('a \<Rightarrow> 'a \<Rightarrow> int) \<Rightarrow> 'a \<Rightarrow> 'a list \<Rightarrow> 'a list" where
  "insort_cmp cmp x [] = [x]"
| "insort_cmp cmp x (y # ys) =
     (if cmp x y \<le> 0 then x # y # ys else y # insort_cmp cmp x ys)"

definition sort_cmp :: "('a \<Rightarrow> 'a \<Rightarrow> int) \<Rightarrow> 'a list \<Rightarrow> 'a list" where
  "sort_cmp cmp xs = foldr (insort_cmp cmp) xs []"

text \<open>The comparator of the task rows. \<open>String.prototype.localeCompare\<close> belongs to the
  runtime and its locale, so it is a parameter.\<close>

definition row_cmp :: "(string \<Rightarrow> string \<Rightarrow> int) \<Rightarrow> TimesheetTaskData \<Rightarrow> TimesheetTaskData \<Rightarrow> int" where
  "row_cmp localeCompare a b =
     (if total_minutes b \<noteq> total_minutes a then total_minutes b - total_minutes a
      else localeCompare (task_title a) (task_title b))"

definition aggregate ::
  "(string \<Rightarrow> string \<Rightarrow> int) \<Rightarrow> TimeEntry list \<Rightarrow> Task list \<Rightarrow> string \<Rightarrow> string \<Rightarrow> TimesheetData" where
  "aggregate localeCompare timeEntries ts startDate endDate =
     (case foldl (process_entry startDate endDate) (init_taskMap ts, []) timeEntries of
        (taskMap, dailyTotals) \<Rightarrow>
          \<lparr> tasks = sort_cmp (row_cmp localeCompare) (map snd taskMap),
            daily_totals = dailyTotals,
            week_total = foldl (\<lambda>sum minutes. sum + minutes) 0 (map snd dailyTotals) \<rparr>)"

section \<open>JavaScript numbers\<close>

text \<open>
  A \<open>number\<close> of the page or of a request to the server: a rational (every finite double
  is one), one of the two infinities, or NaN. The sign of zero is not kept: no test in
  the sources tells \<open>-0\<close> from \<open>0\<close>. The result of an arithmetic operation is its exact
  result rounded to the nearest double, a tie going to the even significand, and to an
  infinity from \<open>2^1024\<close> on, as IEEE 754 binary64 does.
\<close>

datatype number = Num rat | PosInf | NegInf | NaN

definition pow2 :: "int \<Rightarrow> rat" where
  "pow2 e = (if 0 \<le> e then of_int (2 ^ nat e) else 1 / of_int (2 ^ nat (- e)))"

text \<open>The binary exponent of a positive rational \<open>x = p / q\<close>: the \<open>e\<close> with
  \<open>2^e \<le> x < 2^(e+1)\<close>, which is the difference of the bit lengths of \<open>p\<close> and \<open>q\<close> or
  one less.\<close>

definition ilog2 :: "rat \<Rightarrow> int" where
  "ilog2 x =
     (case quotient_of x of
        (p, q) \<Rightarrow> (let e0 = bitlen p - bitlen q in if pow2 e0 \<le> x then e0 else e0 - 1))"

definition round_half_even :: "rat \<Rightarrow> int" where
  "round_half_even x =
     (let f = \<lfloor>x\<rfloor>; r = x - of_int f
      in if r < 1 / 2 then f else if 1 / 2 < r then f + 1 else if even f then f else f + 1)"

text \<open>The double nearest to a rational: a significand of 53 bits at the exponent of the
  rational, which is not below that of the subnormal numbers; an infinity when the
  rounded value reaches \<open>2^1024\<close>, that is when the exponent is above 1023 or the
  significand has rounded up to \<open>2^53\<close> at exponent 1023.\<close>

definition to_double :: "rat \<Rightarrow> number" where
  "to_double x =
     (if x = 0 then Num 0
      else
        (let e = max (ilog2 \<bar>x\<bar>) (- 1022)
         in if 1024 \<le> e then (if 0 < x then PosInf else NegInf)
            else
              (let m = round_half_even (\<bar>x\<bar> / pow2 (e - 52))
               in if e = 1023 \<and> m = 2 ^ 53 then (if 0 < x then PosInf else NegInf)
                  else Num ((if 0 < x then of_int m else - of_int m) * pow2 (e - 52)))))"

text \<open>\<open>a < b\<close>: false as soon as one side is NaN.\<close>

fun num_less :: "number \<Rightarrow> number \<Rightarrow> bool" where
  "num_less NaN b = False"
| "num_less a NaN = False"
| "num_less (Num x) (Num y) = (x < y)"
| "num_less a NegInf = False"
| "num_less NegInf b = True"
| "num_less PosInf b = False"
| "num_less a PosInf = True"

text \<open>\<open>a !== b\<close>: NaN differs from everything, itself included.\<close>

definition strict_neq :: "number \<Rightarrow> number \<Rightarrow> bool" where
  "strict_neq a b = (a = NaN \<or> b = NaN \<or> a \<noteq> b)"

fun num_neg :: "number \<Rightarrow> number" where
  "num_neg (Num x) = Num (- x)"
| "num_neg PosInf = NegInf"
| "num_neg NegInf = PosInf"
| "num_neg NaN = NaN"

fun num_plus :: "number \<Rightarrow> number \<Rightarrow> number" where
  "num_plus NaN b = NaN"
| "num_plus a NaN = NaN"
| "num_plus (Num x) (Num y) = to_double (x + y)"
| "num_plus PosInf NegInf = NaN"
| "num_plus NegInf PosInf = NaN"
| "num_plus PosInf b = PosInf"
| "num_plus NegInf b = NegInf"
| "num_plus a b = b"

definition num_minus :: "number \<Rightarrow> number \<Rightarrow> number" where
  "num_minus a b = num_plus a (num_neg b)"

text \<open>\<open>a * b\<close>: an infinity times zero is NaN, otherwise an infinity with the sign of the
  product.\<close>

definition num_times :: "number \<Rightarrow> number \<Rightarrow> number" where
  "num_times a b =
     (case (a, b) of
        (Num x, Num y) \<Rightarrow> to_double (x * y)
      | _ \<Rightarrow>
          if a = NaN \<or> b = NaN \<or> a = Num 0 \<or> b = Num 0 then NaN
          else if num_less a (Num 0) = num_less b (Num 0) then PosInf else NegInf)"

section \<open>The backend and the server actions (\<open>time-actions\<close>)\<close>

text \<open>The persistent state the actions work on: the session's user, the table of time
  entries and the table of tasks.\<close>

record Backend =
  auth_user :: "string option"
  time_entries :: "TimeEntry list"
  task_rows :: "Task list"

text \<open>What the surroundings decide during one run of a handler: the clock, the id the
  database gives to an inserted row, the browser's offset from UTC in minutes (east
  positive), the locale's string comparison, the answer to the confirmation dialog, and
  which remote operations fail, with the message they return (\<open>minutes_error\<close> is the
  message for minutes that the column does not take).\<close>

record World =
  now :: int
  new_id :: string
  utcOffsetMinutes :: int
  localeCompare :: "string \<Rightarrow> string \<Rightarrow> int"
  confirmed :: bool
  read_error :: "string option"
  insert_error :: "string option"
  minutes_error :: string
  delete_error :: "(string \<times> string) list"

record AddManualTimeEntryInput =
  in_task_id :: string
  in_minutes :: number
  in_description :: "string option"

text \<open>\<open>.single()\<close>: the row when the query has exactly one, no data otherwise.\<close>

definition single :: "'a list \<Rightarrow> 'a option" where
  "single rows = (case rows of [row] \<Rightarrow> Some row | _ \<Rightarrow> None)"

text \<open>Modelled from the spec: the schema of \<open>time_entries\<close> is not in the sources. The
  row an insert creates gets its \<open>id\<close> and \<open>created_at\<close> from the database (here
  \<open>new_id\<close> and \<open>now\<close>); the columns the insert leaves out are null.\<close>

definition insert_row ::
  "World \<Rightarrow> string \<Rightarrow> string \<Rightarrow> int \<Rightarrow> string option \<Rightarrow> int option \<Rightarrow> int option \<Rightarrow> TimeEntry" where
  "insert_row w taskId userId mins descr started ended =
     \<lparr> e_id = new_id w, e_task_id = taskId, e_user_id = userId, e_minutes = mins,
       e_description = descr, e_started_at = started, e_ended_at = ended,
       e_created_at = now w \<rparr>"

text \<open>Modelled from the spec: the schema of \<open>time_entries\<close> is not in the sources, and
  the specification gives \<open>minutes\<close> as an integer column. The column takes a number that
  is an integer and nothing else: not a fraction, and not NaN or an infinity, which reach
  the database as JSON \<open>null\<close>. The range of the column is not modelled.\<close>

definition column_integer :: "number \<Rightarrow> int option" where
  "column_integer n =
     (case n of
        Num x \<Rightarrow> if of_int \<lfloor>x\<rfloor> = x then Some \<lfloor>x\<rfloor> else None
      | _ \<Rightarrow> None)"

text \<open>\<open>input.minutes < 1 ? 1 : input.minutes\<close>. NaN and \<open>Infinity\<close> are not below 1 and
  pass unchanged.\<close>

definition floor_one :: "number \<Rightarrow> number" where
  "floor_one m = (if num_less m (Num 1) then Num 1 else m)"

definition addManualTimeEntry ::
  "World \<Rightarrow> Backend \<Rightarrow> AddManualTimeEntryInput \<Rightarrow> (string + TimeEntry) \<times> Backend" where
  "addManualTimeEntry w b input =
     (case auth_user b of
        None \<Rightarrow> (Inl ''Not authenticated'', b)
      | Some user \<Rightarrow>
          (case single (filter (\<lambda>t. t_id t = in_task_id input) (task_rows b)) of
             None \<Rightarrow> (Inl ''Not authorized to track time for this task'', b)
           | Some task \<Rightarrow>
               if t_assignee_id task \<noteq> user
               then (Inl ''Not authorized to track time for this task'', b)
               else
                 (let minutes = floor_one (in_minutes input);
                      description =
                        (case in_description input of
                           Some d \<Rightarrow> if d = [] then None else Some d
                         | None \<Rightarrow> None)
                  in case insert_error w of
                       Some msg \<Rightarrow> (Inl msg, b)
                     | None \<Rightarrow>
                         (case column_integer minutes of
                            None \<Rightarrow> (Inl (minutes_error w), b)
                          | Some stored \<Rightarrow>
                              (let data = insert_row w (in_task_id input) user stored description None None
                               in (Inr data, b\<lparr>time_entries := time_entries b @ [data]\<rparr>))))))"

text \<open>\<open>Math.round\<close>: the nearest integer, a half going up.\<close>

definition Math_round :: "real \<Rightarrow> int" where
  "Math_round x = \<lfloor>x + 1 / 2\<rfloor>"

text \<open>\<open>stopTimer\<close>. The argument \<open>startedAt\<close> is the instant the caller's ISO string
  denotes; the stop instant is the server's clock.\<close>

definition stopTimer :: "World \<Rightarrow> Backend \<Rightarrow> string \<Rightarrow> int \<Rightarrow> (string + TimeEntry) \<times> Backend" where
  "stopTimer w b taskId startedAt =
     (case auth_user b of
        None \<Rightarrow> (Inl ''Not authenticated'', b)
      | Some user \<Rightarrow>
          (case single (filter (\<lambda>t. t_id t = taskId) (task_rows b)) of
             None \<Rightarrow> (Inl ''Not authorized to track time for this task'', b)
           | Some task \<Rightarrow>
               if t_assignee_id task \<noteq> user
               then (Inl ''Not authorized to track time for this task'', b)
               else
                 (let startTime = startedAt;
                      endTime = now w;
                      calculatedMinutes = Math_round (real_of_int (endTime - startTime) / (1000 * 60));
                      minutes = (if calculatedMinutes < 1 then 1 else calculatedMinutes)
                  in case insert_error w of
                       Some msg \<Rightarrow> (Inl msg, b)
                     | None \<Rightarrow>
                         (let data = insert_row w taskId user minutes None (Some startTime) (Some endTime)
                          in (Inr data, b\<lparr>time_entries := time_entries b @ [data]\<rparr>)))))"

definition deleteTimeEntry :: "World \<Rightarrow> Backend \<Rightarrow> string \<Rightarrow> (string + unit) \<times> Backend" where
  "deleteTimeEntry w b timeEntryId =
     (case auth_user b of
        None \<Rightarrow> (Inl ''Not authenticated'', b)
      | Some user \<Rightarrow>
          (case (if read_error w \<noteq> None then None
                 else single (filter (\<lambda>e. e_id e = timeEntryId) (time_entries b))) of
             None \<Rightarrow> (Inl ''Time entry not found'', b)
           | Some timeEntry \<Rightarrow>
               if e_user_id timeEntry \<noteq> user
               then (Inl ''Not authorized to delete this time entry'', b)
               else
                 (case map_of (delete_error w) timeEntryId of
                    Some msg \<Rightarrow> (Inl msg, b)
                  | None \<Rightarrow>
                      (Inr (), b\<lparr>time_entries := filter (\<lambda>e. e_id e \<noteq> timeEntryId) (time_entries b)\<rparr>))))"

text \<open>\<open>getTimesheetData\<close>: the entries of the user by \<open>created_at\<close> (entries created at
  the same instant in the order of the table), the tasks assigned to the user, and the
  aggregation of the two.\<close>

definition getTimesheetData :: "World \<Rightarrow> Backend \<Rightarrow> string \<Rightarrow> string \<Rightarrow> string + TimesheetData" where
  "getTimesheetData w b startDate endDate =
     (case auth_user b of
        None \<Rightarrow> Inl ''Not authenticated''
      | Some user \<Rightarrow>
          (case read_error w of
             Some msg \<Rightarrow> Inl msg
           | None \<Rightarrow>
               Inr (aggregate (localeCompare w)
                      (sort_key e_created_at (filter (\<lambda>e. e_user_id e = user) (time_entries b)))
                      (filter (\<lambda>t. t_assignee_id t = user) (task_rows b))
                      startDate endDate)))"

section \<open>The timesheet page: parsing the edited cell\<close>

text \<open>\<open>String.prototype.split\<close> on a one-character separator.\<close>

fun split_on :: "char \<Rightarrow> string \<Rightarrow> string list" where
  "split_on c [] = [[]]"
| "split_on c (x # xs) =
     (if x = c then [] # split_on c xs
      else (case split_on c xs of p # ps \<Rightarrow> (x # p) # ps | [] \<Rightarrow> [[x]]))"

text \<open>\<open>parseInt\<close> with no radix: leading white space, an optional sign, an optional
  \<open>0x\<close> prefix, then the longest run of digits, whose value is rounded to the nearest
  double (the standard lets an engine approximate a decimal run beyond its 20th digit;
  this is the exact rounding, which V8 computes); no digit gives NaN. An array pattern
  that finds no element binds \<open>undefined\<close>, which parses to NaN as well.\<close>

definition is_space :: "char \<Rightarrow> bool" where
  "is_space c = (of_char c \<in> {9, 10, 11, 12, 13, 32, 160 :: nat})"

definition digit_value :: "nat \<Rightarrow> char \<Rightarrow> nat option" where
  "digit_value radix c =
     (let n = (of_char c :: nat);
          v = (if 48 \<le> n \<and> n \<le> 57 then Some (n - 48)
               else if 97 \<le> n \<and> n \<le> 122 then Some (n - 87)
               else if 65 \<le> n \<and> n \<le> 90 then Some (n - 55)
               else None)
      in case v of Some d \<Rightarrow> if d < radix then Some d else None | None \<Rightarrow> None)"

text \<open>The integer a run of digits stands for.\<close>

definition digits_value :: "nat \<Rightarrow> string \<Rightarrow> int" where
  "digits_value radix ds =
     foldl (\<lambda>acc c. acc * int radix +
              (case digit_value radix c of Some d \<Rightarrow> int d | None \<Rightarrow> 0)) 0 ds"

definition parseInt :: "string option \<Rightarrow> number" where
  "parseInt arg =
     (case arg of
        None \<Rightarrow> NaN
      | Some str \<Rightarrow>
          (let s1 = dropWhile is_space str;
               sign = (if take 1 s1 = ''-'' then - 1 else 1 :: int);
               s2 = (if take 1 s1 = ''-'' \<or> take 1 s1 = ''+'' then drop 1 s1 else s1);
               radix = (if take 2 s2 = ''0x'' \<or> take 2 s2 = ''0X'' then 16 else 10 :: nat);
               s3 = (if radix = 16 then drop 2 s2 else s2);
               ds = takeWhile (\<lambda>c. digit_value radix c \<noteq> None) s3
           in if ds = [] then NaN
              else to_double (of_int (sign * digits_value radix ds))))"

text \<open>\<open>x || 0\<close> on a number: NaN and zero are falsy.\<close>

definition or_zero :: "number \<Rightarrow> number" where
  "or_zero v = (if v = NaN \<or> v = Num 0 then Num 0 else v)"

text \<open>The first lines of \<open>handleCellSave\<close>: the minutes the edited text stands for,
  \<open>hours * 60 + minutes\<close> in double arithmetic.\<close>

definition parsedMinutes :: "string \<Rightarrow> number" where
  "parsedMinutes editValue =
     (let parts = split_on CHR '':'' editValue;
          hoursStr = (case parts of h # _ \<Rightarrow> Some h | [] \<Rightarrow> None);
          minsStr = (case parts of _ # m # _ \<Rightarrow> Some m | _ \<Rightarrow> None);
          hours = or_zero (parseInt hoursStr);
          minutes = or_zero (parseInt minsStr)
      in num_plus (num_times hours (Num 60)) minutes)"

section \<open>The timesheet page: the handlers\<close>

text \<open>The state of the page that the handlers read and set. \<open>startDateStr\<close> and
  \<open>endDateStr\<close> are the bounds of the displayed week. The \<open>loading\<close> flag, which only
  the rendering reads, is left out.\<close>

record Page =
  timesheetData :: "TimesheetData option"
  editingCell :: "(string \<times> string) option"
  editValue :: string
  contextMenu :: "(string \<times> string) option"
  startDateStr :: string
  endDateStr :: string

text \<open>What a handler does that can be observed from outside, in order: its remote calls
  and the alerts it shows.\<close>

datatype event =
    AuthGetUser
  | SelectTimeEntries string string
  | CallDeleteTimeEntry string
  | CallAddManualTimeEntry string number string
  | CallGetTimesheetData string string
  | Alert string

fun is_remote :: "event \<Rightarrow> bool" where
  "is_remote (Alert msg) = False"
| "is_remote ev = True"

text \<open>\<open>new Date(date + 'T' + hh:mm:ss)\<close>: a date-time without offset is local time. The
  result is \<open>None\<close> (an invalid date) unless \<open>date\<close> is a well-formed \<open>YYYY-MM-DD\<close>
  with a four-digit year, which is what the page passes for every day it displays. The
  offset of local time from UTC is taken as constant over the day.\<close>

definition all_digits :: "string \<Rightarrow> bool" where
  "all_digits str = list_all (\<lambda>c. digit_value 10 c \<noteq> None) str"

definition parseISODate :: "string \<Rightarrow> int option" where
  "parseISODate date =
     (if length date = 10 \<and> date ! 4 = CHR ''-'' \<and> date ! 7 = CHR ''-'' \<and>
         all_digits (take 4 date) \<and> all_digits (take 2 (drop 5 date)) \<and>
         all_digits (drop 8 date)
      then
        (let y = digits_value 10 (take 4 date);
             m = digits_value 10 (take 2 (drop 5 date));
             d = digits_value 10 (drop 8 date)
         in if 1 \<le> m \<and> m \<le> 12 \<and> 1 \<le> d \<and> d \<le> 31
            then Some (days_from_civil y m d) else None)
      else None)"

definition localDateTime :: "World \<Rightarrow> string \<Rightarrow> int \<Rightarrow> int \<Rightarrow> int \<Rightarrow> int option" where
  "localDateTime w date hh mm ss =
     (case parseISODate date of
        None \<Rightarrow> None
      | Some day \<Rightarrow>
          Some (day * msPerDay + ((hh * 60 + mm) * 60 + ss) * 1000 - utcOffsetMinutes w * 60000))"

text \<open>The filter both handlers apply to the entries of the task: the instant of the entry
  between local midnight and local 23:59:59 of the day. A comparison with an invalid
  date is false.\<close>

definition entriesToDelete :: "World \<Rightarrow> string \<Rightarrow> TimeEntry list \<Rightarrow> TimeEntry list" where
  "entriesToDelete w date timeEntries =
     (let dateStart = localDateTime w date 0 0 0;
          dateEnd = localDateTime w date 23 59 59
      in filter (\<lambda>entry.
           (let entryDate = (case e_started_at entry of Some s \<Rightarrow> s | None \<Rightarrow> e_created_at entry)
            in (case dateStart of Some ds \<Rightarrow> entryDate \<ge> ds | None \<Rightarrow> False) \<and>
               (case dateEnd of Some de \<Rightarrow> entryDate \<le> de | None \<Rightarrow> False)))
         timeEntries)"

text \<open>The query of the page for the entries of a task and a user; no data when the read
  fails.\<close>

definition selectTimeEntries :: "World \<Rightarrow> Backend \<Rightarrow> string \<Rightarrow> string \<Rightarrow> TimeEntry list option" where
  "selectTimeEntries w b taskId userId =
     (if read_error w \<noteq> None then None
      else Some (filter (\<lambda>e. e_task_id e = taskId \<and> e_user_id e = userId) (time_entries b)))"

definition loadTimesheetData :: "World \<Rightarrow> Page \<Rightarrow> Backend \<Rightarrow> Page \<times> event list" where
  "loadTimesheetData w p b =
     (case getTimesheetData w b (startDateStr p) (endDateStr p) of
        Inl err \<Rightarrow> (p, [CallGetTimesheetData (startDateStr p) (endDateStr p)])
      | Inr d \<Rightarrow> (p\<lparr>timesheetData := Some d\<rparr>, [CallGetTimesheetData (startDateStr p) (endDateStr p)]))"

text \<open>The delete loop of \<open>handleCellSave\<close>: the result of each call is dropped.\<close>

fun delete_each :: "World \<Rightarrow> Backend \<Rightarrow> TimeEntry list \<Rightarrow> Backend \<times> event list" where
  "delete_each w b [] = (b, [])"
| "delete_each w b (entry # rest) =
     (case deleteTimeEntry w b (e_id entry) of
        (result, b1) \<Rightarrow>
          (case delete_each w b1 rest of
             (b2, evs) \<Rightarrow> (b2, CallDeleteTimeEntry (e_id entry) # evs)))"

text \<open>The delete loop of \<open>handleDeleteTimeForDay\<close>: an error is shown and ends the loop.\<close>

fun delete_until_error :: "World \<Rightarrow> Backend \<Rightarrow> TimeEntry list \<Rightarrow> Backend \<times> event list" where
  "delete_until_error w b [] = (b, [])"
| "delete_until_error w b (entry # rest) =
     (case deleteTimeEntry w b (e_id entry) of
        (Inl err, b1) \<Rightarrow> (b1, [CallDeleteTimeEntry (e_id entry), Alert err])
      | (Inr ok, b1) \<Rightarrow>
          (case delete_until_error w b1 rest of
             (b2, evs) \<Rightarrow> (b2, CallDeleteTimeEntry (e_id entry) # evs)))"

definition handleDeleteTimeForDay ::
  "World \<Rightarrow> Page \<Rightarrow> Backend \<Rightarrow> string \<Rightarrow> string \<Rightarrow> Page \<times> Backend \<times> event list" where
  "handleDeleteTimeForDay w p b taskId date =
     (if \<not> confirmed w then (p, b, [])
      else
        (case auth_user b of
           None \<Rightarrow> (p, b, [AuthGetUser])
         | Some user \<Rightarrow>
             (case selectTimeEntries w b taskId user of
                None \<Rightarrow> (p, b, [AuthGetUser, SelectTimeEntries taskId user])
              | Some timeEntries \<Rightarrow>
                  if timeEntries = [] then (p, b, [AuthGetUser, SelectTimeEntries taskId user])
                  else
                    (case delete_until_error w b (entriesToDelete w date timeEntries) of
                       (b1, evs) \<Rightarrow>
                         (case loadTimesheetData w (p\<lparr>contextMenu := None\<rparr>) b1 of
                            (p1, evs1) \<Rightarrow>
                              (p1, b1, [AuthGetUser, SelectTimeEntries taskId user] @ evs @ evs1))))))"

text \<open>The description every adjustment entry is tagged with.\<close>

definition adjustment_description :: "string \<Rightarrow> string" where
  "adjustment_description date = ''Timesheet entry for '' @ date"

text \<open>The insert of \<open>handleCellSave\<close>, in both of its branches: the call, and an alert
  when it returns an error.\<close>

definition add_adjustment ::
  "World \<Rightarrow> Backend \<Rightarrow> string \<Rightarrow> string \<Rightarrow> number \<Rightarrow> Backend \<times> event list" where
  "add_adjustment w b taskId date mins =
     (case addManualTimeEntry w b
             \<lparr> in_task_id = taskId, in_minutes = mins,
               in_description = Some (adjustment_description date) \<rparr> of
        (Inl err, b1) \<Rightarrow>
          (b1, [CallAddManualTimeEntry taskId mins (adjustment_description date), Alert err])
      | (Inr data, b1) \<Rightarrow>
          (b1, [CallAddManualTimeEntry taskId mins (adjustment_description date)]))"

text \<open>The branch of \<open>handleCellSave\<close> that reduces a cell.\<close>

definition reduce_cell ::
  "World \<Rightarrow> Backend \<Rightarrow> string \<Rightarrow> string \<Rightarrow> number \<Rightarrow> Backend \<times> event list" where
  "reduce_cell w b taskId date totalMinutes =
     (case auth_user b of
        None \<Rightarrow> (b, [AuthGetUser])
      | Some user \<Rightarrow>
          (case (case selectTimeEntries w b taskId user of
                   Some timeEntries \<Rightarrow> delete_each w b (entriesToDelete w date timeEntries)
                 | None \<Rightarrow> (b, [])) of
             (b1, evs) \<Rightarrow>
               (case (if num_less (Num 0) totalMinutes then add_adjustment w b1 taskId date totalMinutes
                      else (b1, [])) of
                  (b2, evs2) \<Rightarrow>
                    (b2, [AuthGetUser, SelectTimeEntries taskId user] @ evs @ evs2))))"

text \<open>The minutes the last loaded report shows in a cell:
  \<open>timesheetData?.tasks.find(t => t.task_id === taskId)?.daily_time[date] || 0\<close>, an
  integer, which enters the arithmetic of \<open>handleCellSave\<close> as it is.\<close>

definition currentMinutes :: "Page \<Rightarrow> string \<Rightarrow> string \<Rightarrow> int" where
  "currentMinutes p taskId date =
     (let task = (case timesheetData p of
                    Some d \<Rightarrow> find (\<lambda>t. task_id t = taskId) (tasks d)
                  | None \<Rightarrow> None)
      in case task of Some t \<Rightarrow> cell (daily_time t) date | None \<Rightarrow> 0)"

definition handleCellSave :: "World \<Rightarrow> Page \<Rightarrow> Backend \<Rightarrow> Page \<times> Backend \<times> event list" where
  "handleCellSave w p b =
     (case editingCell p of
        None \<Rightarrow> (p, b, [])
      | Some (taskId, date) \<Rightarrow>
          (let totalMinutes = parsedMinutes (editValue p)
           in if num_less totalMinutes (Num 0) then (p, b, [Alert ''Time cannot be negative''])
              else
                (let totalMinutes =
                       (if num_less (Num 0) totalMinutes \<and> num_less totalMinutes (Num 1) then Num 1
                        else totalMinutes);
                     difference = num_minus totalMinutes (Num (of_int (currentMinutes p taskId date)))
                 in if strict_neq difference (Num 0) then
                      (case (if num_less difference (Num 0) then reduce_cell w b taskId date totalMinutes
                             else add_adjustment w b taskId date difference) of
                         (b1, evs) \<Rightarrow>
                           (case loadTimesheetData w p b1 of
                              (p1, evs1) \<Rightarrow>
                                (p1\<lparr>editingCell := None, editValue := []\<rparr>, b1, evs @ evs1)))
                    else (p\<lparr>editingCell := None, editValue := []\<rparr>, b, []))))"

section \<open>A worked scenario\<close>

text \<open>Two assigned tasks A and B and four entries of one user: 45 minutes on A started on
  2024-01-01, 15 minutes on A created on 2024-01-02, 30 minutes on B and 7 minutes on a
  task C that is no longer assigned, both created on 2024-01-01. Titles are compared by
  code unit in the scenario.\<close>

definition codeUnitCompare :: "string \<Rightarrow> string \<Rightarrow> int" where
  "codeUnitCompare a b = (if a < b then -1 else if b < a then 1 else 0)"

definition scenario_entries :: "TimeEntry list" where
  "scenario_entries =
     [\<lparr>e_id = ''e1'', e_task_id = ''A'', e_user_id = ''u'', e_minutes = 45, e_description = None,
       e_started_at = Some 1704103200000, e_ended_at = Some 1704105900000, e_created_at = 1704105900000\<rparr>,
      \<lparr>e_id = ''e2'', e_task_id = ''A'', e_user_id = ''u'', e_minutes = 15, e_description = None,
       e_started_at = None, e_ended_at = None, e_created_at = 1704189600000\<rparr>,
      \<lparr>e_id = ''e3'', e_task_id = ''B'', e_user_id = ''u'', e_minutes = 30, e_description = None,
       e_started_at = None, e_ended_at = None, e_created_at = 1704103200000\<rparr>,
      \<lparr>e_id = ''e4'', e_task_id = ''C'', e_user_id = ''u'', e_minutes = 7, e_description = None,
       e_started_at = None, e_ended_at = None, e_created_at = 1704103200000\<rparr>]"

definition scenario_tasks :: "Task list" where
  "scenario_tasks =
     [\<lparr>t_id = ''B'', t_title = ''beta'', t_status = ''todo'', t_assignee_id = ''u''\<rparr>,
      \<lparr>t_id = ''A'', t_title = ''alpha'', t_status = ''in_progress'', t_assignee_id = ''u''\<rparr>]"

text \<open>The same user on the timesheet page on 2024-01-03 at noon UTC, in a browser on UTC,
  looking at the week from 2023-12-31 to 2024-01-06 with the report loaded.\<close>

definition scenario_world :: World where
  "scenario_world =
     \<lparr> now = 1704283200000, new_id = ''e5'', utcOffsetMinutes = 0,
       localeCompare = codeUnitCompare, confirmed = True,
       read_error = None, insert_error = None,
       minutes_error = ''invalid input for an integer column'', delete_error = [] \<rparr>"

definition scenario_backend :: Backend where
  "scenario_backend =
     \<lparr> auth_user = Some ''u'', time_entries = scenario_entries, task_rows = scenario_tasks \<rparr>"

definition scenario_page :: "(string \<times> string) option \<Rightarrow> string \<Rightarrow> Page" where
  "scenario_page editing text =
     \<lparr> timesheetData =
         Some (aggregate codeUnitCompare scenario_entries scenario_tasks ''2023-12-31'' ''2024-01-06''),
       editingCell = editing, editValue = text, contextMenu = None,
       startDateStr = ''2023-12-31'', endDateStr = ''2024-01-06'' \<rparr>"

text \<open>An entry of task A started half a second before midnight UTC of 2024-01-01.\<close>

definition late_entry :: TimeEntry where
  "late_entry =
     \<lparr>e_id = ''e6'', e_task_id = ''A'', e_user_id = ''u'', e_minutes = 10, e_description = None,
      e_started_at = Some 1704153599500, e_ended_at = None, e_created_at = 1704153599500\<rparr>"

text \<open>A second entry of task A on 2024-01-01, of 20 minutes.\<close>

definition second_entry :: TimeEntry where
  "second_entry =
     \<lparr>e_id = ''e7'', e_task_id = ''A'', e_user_id = ''u'', e_minutes = 20, e_description = None,
      e_started_at = None, e_ended_at = None, e_created_at = 1704110400000\<rparr>"

text \<open>The same page when task A has both its first entry and the second one on
  2024-01-01, and the database refuses to delete the first.\<close>

definition two_entry_backend :: Backend where
  "two_entry_backend = scenario_backend\<lparr>time_entries := scenario_entries @ [second_entry]\<rparr>"

definition two_entry_page :: "(string \<times> string) option \<Rightarrow> string \<Rightarrow> Page" where
  "two_entry_page editing text =
     (scenario_page editing text)
       \<lparr>timesheetData :=
          Some (aggregate codeUnitCompare (scenario_entries @ [second_entry]) scenario_tasks
                  ''2023-12-31'' ''2024-01-06'')\<rparr>"

definition failing_world :: World where
  "failing_world = scenario_world\<lparr>delete_error := [(''e1'', ''permission denied'')]\<rparr>"

section \<open>Auxiliary notions\<close>

text \<open>What the loop over the entries does to the row stored under key \<open>k\<close>.\<close>

definition row_step :: "string \<Rightarrow> string \<Rightarrow> string \<Rightarrow> TimesheetTaskData \<Rightarrow> TimeEntry \<Rightarrow> TimesheetTaskData" where
  "row_step s e k row x =
     (if in_range s e x \<and> e_task_id x = k
      then row\<lparr> daily_time := add_minutes (daily_time row) (entryDate x) (e_minutes x),
                total_minutes := total_minutes row + e_minutes x \<rparr>
      else row)"

text \<open>The checks both writers make before they insert: the session has a user, and the
  one task with that id is assigned to that user.\<close>

definition authorized :: "Backend \<Rightarrow> string \<Rightarrow> string \<Rightarrow> bool" where
  "authorized b user taskId =
     (auth_user b = Some user \<and>
      (case single (filter (\<lambda>t. t_id t = taskId) (task_rows b)) of
         Some task \<Rightarrow> t_assignee_id task = user
       | None \<Rightarrow> False))"

section \<open>Dates and cell texts on examples\<close>

lemma toISODate_examples:
  "toISODate 0 = ''1970-01-01''"
  "toISODate (- 1) = ''1969-12-31''"
  "toISODate 951782400000 = ''2000-02-29''"
  "toISODate 1704067199999 = ''2023-12-31''"
  "toISODate 1704067200000 = ''2024-01-01''"
  "toISODate 1709251199999 = ''2024-02-29''"
  "toISODate 253402300800000 = ''+010000-01-01''"
  by code_simp+

lemma parseISODate_examples:
  "parseISODate ''2024-01-01'' = Some 19723"
  "toISODate (19723 * msPerDay) = ''2024-01-01''"
  "parseISODate ''2024-1-1'' = None"
  "parseISODate '''' = None"
  by code_simp+

lemma parsedMinutes_examples:
  "parsedMinutes ''1:30'' = Num 90"
  "parsedMinutes ''0:05'' = Num 5"
  "parsedMinutes '''' = Num 0"
  "parsedMinutes ''abc'' = Num 0"
  "parsedMinutes ''90'' = Num 5400"
  "parsedMinutes ''-1:30'' = Num (- 30)"
  "parsedMinutes ''-0:30'' = Num 30"
  "parsedMinutes ''1:-90'' = Num (- 30)"
  "parsedMinutes ''abc:-5'' = Num (- 5)"
  "parsedMinutes ''1:30:59'' = Num 90"
  by code_simp+

text \<open>From \<open>2^53\<close> on the arithmetic of the page rounds: these texts stand for \<open>-1\<close> and for
  45 in exact arithmetic.\<close>

lemma parsedMinutes_rounded_examples:
  "parsedMinutes ''0:9007199254740993'' = Num 9007199254740992"
  "parsedMinutes ''150119987579017:-9007199254741021'' = Num 0"
  "parsedMinutes ''150119987579018:-9007199254741035'' = Num 44"
  by code_simp+

section \<open>Rounding to a double\<close>

lemma to_double_examples:
  "to_double (2 ^ 53 + 1) = Num (2 ^ 53)"
  "to_double (2 ^ 53 + 3) = Num (2 ^ 53 + 4)"
  "to_double (- (2 ^ 53 + 1)) = Num (- (2 ^ 53))"
  "to_double (1 / 2) = Num (1 / 2)"
  "to_double (1 / 10) = Num (3602879701896397 / 36028797018963968)"
  by code_simp+

lemma round_half_even_of_int: "round_half_even (of_int k) = k"
  by (simp add: round_half_even_def Let_def)

lemma ilog2_of_int:
  assumes "0 < m"
  shows "ilog2 (of_int m) = bitlen m - 1"
proof -
  have b: "1 \<le> bitlen m"
    using assms by (simp add: bitlen_alt_def)
  have "(2::int) ^ nat (bitlen m - 1) \<le> m"
    using bitlen_bounds[OF assms] by blast
  then have "(of_int ((2::int) ^ nat (bitlen m - 1)) :: rat) \<le> of_int m"
    by (simp only: of_int_le_iff)
  with b have "pow2 (bitlen m - 1) \<le> of_int m"
    by (simp add: pow2_def)
  moreover have "bitlen 1 = 1"
    by (simp add: bitlen_alt_def)
  ultimately show ?thesis
    by (simp add: ilog2_def Let_def)
qed

text \<open>An integer of magnitude up to \<open>2^53\<close> is a double: rounding leaves it as it is.\<close>

lemma to_double_int_exact:
  assumes "\<bar>n\<bar> \<le> 2 ^ 53"
  shows "to_double (of_int n) = Num (of_int n)"
proof (cases "n = 0")
  case True
  then show ?thesis by (simp add: to_double_def)
next
  case False
  define m where "m = \<bar>n\<bar>"
  define e where "e = bitlen m - 1"
  have m: "0 < m" "m \<le> 2 ^ 53"
    using False assms by (simp_all add: m_def)
  have e0: "0 \<le> e"
    using m(1) by (simp add: e_def bitlen_alt_def)
  have lo: "2 ^ nat e \<le> m"
    using bitlen_bounds[OF m(1)] by (simp add: e_def)
  have e53: "e \<le> 53"
  proof (rule ccontr)
    assume "\<not> e \<le> 53"
    then have "54 \<le> nat e" by simp
    then have "(2::int) ^ 54 \<le> 2 ^ nat e"
      by (intro power_increasing) simp_all
    with lo m(2) show False by simp
  qed
  have il: "max (ilog2 \<bar>of_int n\<bar>) (- 1022) = e"
    using ilog2_of_int[OF m(1)] e0 by (simp add: m_def e_def)
  have int: "\<exists>k. \<bar>of_int n\<bar> / pow2 (e - 52) = (of_int k :: rat) \<and> of_int k * pow2 (e - 52) = (of_int m :: rat)"
  proof (cases "e = 53")
    case True
    with lo m(2) have "m = 2 ^ 53" by simp
    then have "\<bar>of_int n\<bar> / pow2 (e - 52) = (of_int (2 ^ 52) :: rat) \<and>
        of_int (2 ^ 52) * pow2 (e - 52) = (of_int m :: rat)"
      using True by (simp add: pow2_def m_def[symmetric] flip: of_int_abs)
    then show ?thesis by blast
  next
    case False
    with e53 have le: "e \<le> 52" by simp
    then have p: "pow2 (e - 52) = 1 / of_int (2 ^ nat (52 - e))"
      by (cases "e = 52") (simp_all add: pow2_def)
    have "\<bar>of_int n\<bar> / pow2 (e - 52) = (of_int (m * 2 ^ nat (52 - e)) :: rat) \<and>
        of_int (m * 2 ^ nat (52 - e)) * pow2 (e - 52) = (of_int m :: rat)"
      by (simp add: p m_def flip: of_int_abs)
    then show ?thesis by blast
  qed
  then obtain k where k: "\<bar>of_int n\<bar> / pow2 (e - 52) = (of_int k :: rat)"
    "of_int k * pow2 (e - 52) = (of_int m :: rat)"
    by blast
  have r: "round_half_even (\<bar>of_int n\<bar> / pow2 (e - 52)) = k"
    by (simp only: k round_half_even_of_int)
  have neg: "- of_int k * pow2 (e - 52) = - (of_int m :: rat)"
    using k(2) by simp
  show ?thesis
    using False e53 k(2) neg
    by (simp add: to_double_def il r Let_def m_def)
qed

text \<open>An integer from \<open>2^1024\<close> on rounds to an infinity.\<close>

lemma to_double_int_overflow:
  assumes "2 ^ 1024 \<le> n"
  shows "to_double (of_int n) = PosInf" and "to_double (of_int (- n)) = NegInf"
proof -
  have n: "0 < n"
    using assms by (smt (verit) zero_less_power)
  have "n < 2 ^ nat (bitlen n)"
    using bitlen_bounds[OF n] by blast
  with assms have lt: "(2::int) ^ 1024 < 2 ^ nat (bitlen n)"
    by linarith
  have one: "(1::int) < 2"
    by simp
  from power_less_imp_less_exp[OF one lt] have "1024 < nat (bitlen n)" .
  then have e: "1024 \<le> bitlen n - 1"
    by simp
  have gen: "to_double x = (if 0 < x then PosInf else NegInf)"
    if "x \<noteq> 0" "ilog2 \<bar>x\<bar> = bitlen n - 1" for x
    using that e by (simp add: to_double_def Let_def)
  have il: "ilog2 \<bar>of_int n\<bar> = bitlen n - 1" "ilog2 \<bar>of_int (- n)\<bar> = bitlen n - 1"
    using ilog2_of_int[OF n] n by simp_all
  have "to_double (of_int n) = (if 0 < (of_int n :: rat) then PosInf else NegInf)"
    using n by (intro gen il) simp
  then show "to_double (of_int n) = PosInf"
    using n by simp
  have "to_double (of_int (- n)) = (if 0 < (of_int (- n) :: rat) then PosInf else NegInf)"
    using n by (intro gen il) simp
  then show "to_double (of_int (- n)) = NegInf"
    using n by simp
qed

lemma digits_value_nines:
  "digits_value 10 (replicate k CHR ''9'') = 10 ^ k - 1"
proof -
  have "foldl (\<lambda>acc c. acc * int 10 + (case digit_value 10 c of Some d \<Rightarrow> int d | None \<Rightarrow> 0)) a
          (replicate k CHR ''9'') = (a + 1) * 10 ^ k - 1" for a
    by (induction k arbitrary: a) (simp_all add: digit_value_def algebra_simps)
  from this[of 0] show ?thesis
    by (simp add: digits_value_def)
qed

lemma parseInt_nines:
  assumes "310 \<le> k"
  shows "parseInt (Some (replicate k CHR ''9'')) = PosInf"
    and "parseInt (Some (CHR ''-'' # replicate k CHR ''9'')) = NegInf"
proof -
  define str where "str = replicate k CHR ''9''"
  have "(10::int) ^ 310 \<le> 10 ^ k"
    using assms by (intro power_increasing) simp_all
  moreover have "(2::int) ^ 1024 \<le> 10 ^ 310 - 1"
    by simp
  ultimately have big: "(2::int) ^ 1024 \<le> 10 ^ k - 1"
    by linarith
  obtain j where j: "k = Suc (Suc j)"
    using assms by (cases k; cases "k - 1") auto
  have nine: "digit_value 10 CHR ''9'' = Some 9" "\<not> is_space CHR ''9''"
    by (simp_all add: digit_value_def is_space_def)
  have str: "str \<noteq> []" "dropWhile is_space str = str" "take (Suc 0) str = ''9''"
    "take 2 str = ''99''" "takeWhile (\<lambda>c. \<exists>y. digit_value 10 c = Some y) str = str"
    by (simp_all add: str_def j nine takeWhile_eq_all_conv)
  have minus: "\<not> is_space CHR ''-''"
    by (simp add: is_space_def)
  have v: "digits_value 10 str = 10 ^ k - 1"
    by (simp only: str_def digits_value_nines)
  have "parseInt (Some str) = to_double (of_int (10 ^ k - 1))"
    by (simp add: parseInt_def Let_def str v del: of_int_diff of_int_power)
  then show "parseInt (Some (replicate k CHR ''9'')) = PosInf"
    by (simp only: to_double_int_overflow(1)[OF big] str_def)
  have "parseInt (Some (CHR ''-'' # str)) = to_double (of_int (- (10 ^ k - 1)))"
    by (simp add: parseInt_def Let_def str v nine minus del: of_int_diff of_int_power of_int_minus minus_diff_eq)
  then show "parseInt (Some (CHR ''-'' # replicate k CHR ''9'')) = NegInf"
    by (simp only: to_double_int_overflow(2)[OF big] str_def)
qed

text \<open>A text of two runs of 310 nines, the second with a minus sign: the hours are
  \<open>Infinity\<close>, the minutes \<open>-Infinity\<close>, and their sum is NaN.\<close>

lemma parsedMinutes_NaN:
  "parsedMinutes (replicate 310 CHR ''9'' @ '':-'' @ replicate 310 CHR ''9'') = NaN"
proof -
  have nc: "CHR '':'' \<notin> set (replicate 310 CHR ''9'')"
    by simp
  have sp: "split_on CHR '':'' (xs @ CHR '':'' # ys) = xs # split_on CHR '':'' ys"
    if "CHR '':'' \<notin> set xs" for xs ys
    using that by (induction xs) auto
  have sp1: "split_on CHR '':'' ys = [ys]" if "CHR '':'' \<notin> set ys" for ys
    using that by (induction ys) auto
  have "split_on CHR '':'' (replicate 310 CHR ''9'' @ '':-'' @ replicate 310 CHR ''9'') =
      [replicate 310 CHR ''9'', CHR ''-'' # replicate 310 CHR ''9'']"
    using sp[OF nc, of "CHR ''-'' # replicate 310 CHR ''9''"] sp1[of "CHR ''-'' # replicate 310 CHR ''9''"]
    by simp
  then show ?thesis
    using parseInt_nines[of 310]
    by (simp add: parsedMinutes_def Let_def or_zero_def num_times_def)
qed

section \<open>Dictionaries\<close>

lemma map_of_obj_set: "map_of (obj_set kvs k v) = (map_of kvs)(k \<mapsto> v)"
  by (induction kvs) (auto simp: fun_eq_iff)

lemma keys_obj_set:
  "map fst (obj_set kvs k v) = (if k \<in> fst ` set kvs then map fst kvs else map fst kvs @ [k])"
  by (induction kvs) force+

lemma sum_obj_set:
  "sum_list (map snd (obj_set kvs k v)) = sum_list (map snd kvs) - cell kvs k + (v::int)"
  by (induction kvs) (auto simp: cell_def)

lemma map_of_add_minutes:
  "map_of (add_minutes obj k m) = (map_of obj)(k \<mapsto> cell obj k + m)"
  by (auto simp: add_minutes_def Let_def map_of_obj_set falsy_def cell_def fun_eq_iff split: option.splits)

lemma cell_add_minutes:
  "cell (add_minutes obj k m) d = cell obj d + (if d = k then m else 0)"
  by (simp add: cell_def map_of_add_minutes)

lemma sum_add_minutes:
  "sum_list (map snd (add_minutes obj k m)) = sum_list (map snd obj) + m"
  by (auto simp: add_minutes_def Let_def sum_obj_set falsy_def cell_def map_of_obj_set split: option.splits)

lemma add_minutes_not_Nil: "add_minutes obj k m \<noteq> []"
  by (cases obj) (auto simp: add_minutes_def Let_def split: if_splits)

lemma foldl_plus_sum: "foldl (\<lambda>sum minutes. sum + minutes) a xs = a + sum_list (xs::int list)"
  by (induction xs arbitrary: a) auto

section \<open>The loop over the entries\<close>

lemma process_entry_keys: "map fst (fst (process_entry s e st x)) = map fst (fst st)"
  by (cases st) (auto simp: process_entry_def keys_obj_set split: option.splits dest!: map_of_SomeD intro: rev_image_eqI)

lemma process_entry_lookup:
  "map_of (fst (process_entry s e st x)) k = map_option (\<lambda>row. row_step s e k row x) (map_of (fst st) k)"
  by (cases st; cases "map_of (fst st) k")
     (auto simp: process_entry_def row_step_def in_range_def map_of_obj_set split: option.splits)

lemma process_entry_totals:
  "snd (process_entry s e st x) =
     (if in_range s e x then add_minutes (snd st) (entryDate x) (e_minutes x) else snd st)"
  by (cases st) (auto simp: process_entry_def in_range_def split: option.splits)

lemma fold_keys: "map fst (fst (foldl (process_entry s e) st E)) = map fst (fst st)"
  by (induction E arbitrary: st) (simp_all add: process_entry_keys)

lemma fold_lookup:
  "map_of (fst (foldl (process_entry s e) st E)) k =
     map_option (\<lambda>row. foldl (row_step s e k) row E) (map_of (fst st) k)"
  by (induction E arbitrary: st) (simp_all add: process_entry_lookup option.map_comp comp_def option.map_ident)

lemma fold_sum:
  "sum_list (map snd (snd (foldl (process_entry s e) st E))) =
     sum_list (map snd (snd st)) + sum_list (map e_minutes (filter (in_range s e) E))"
  by (induction E arbitrary: st) (simp_all add: process_entry_totals sum_add_minutes)

lemma fold_cell:
  "cell (snd (foldl (process_entry s e) st E)) d =
     cell (snd st) d + sum_list (map e_minutes (filter (\<lambda>x. in_range s e x \<and> entryDate x = d) E))"
  by (induction E arbitrary: st) (auto simp add: process_entry_totals cell_add_minutes)

lemma row_fold_fields:
  "task_id (foldl (row_step s e k) row E) = task_id row \<and>
   task_title (foldl (row_step s e k) row E) = task_title row \<and>
   task_status (foldl (row_step s e k) row E) = task_status row \<and>
   assignee_id (foldl (row_step s e k) row E) = assignee_id row"
  by (induction E arbitrary: row) (simp_all add: row_step_def)

lemma row_fold_total:
  "total_minutes (foldl (row_step s e k) row E) =
     total_minutes row + sum_list (map e_minutes (filter (\<lambda>x. in_range s e x \<and> e_task_id x = k) E))"
  by (induction E arbitrary: row) (simp_all add: row_step_def)

lemma row_fold_cell:
  "cell (daily_time (foldl (row_step s e k) row E)) d =
     cell (daily_time row) d +
     sum_list (map e_minutes (filter (\<lambda>x. in_range s e x \<and> e_task_id x = k \<and> entryDate x = d) E))"
  by (induction E arbitrary: row) (auto simp add: row_step_def cell_add_minutes)

lemma row_fold_untouched:
  "\<forall>x\<in>set E. \<not> (in_range s e x \<and> e_task_id x = k) \<Longrightarrow> foldl (row_step s e k) row E = row"
  by (induction E arbitrary: row) (auto simp add: row_step_def)

section \<open>Seeding the task map\<close>

lemma keys_set_obj_set: "fst ` set (obj_set kvs k v) = insert k (fst ` set kvs)"
proof -
  have "set (map fst (obj_set kvs k v)) = insert k (set (map fst kvs))"
    unfolding keys_obj_set by auto
  then show ?thesis by simp
qed

lemma seed_keys:
  "fst ` set (foldl (\<lambda>taskMap task. obj_set taskMap (t_id task) (seed_row task)) acc ts) =
     fst ` set acc \<union> t_id ` set ts"
  by (induction ts arbitrary: acc) (simp_all add: keys_set_obj_set)

lemma seed_distinct:
  "distinct (map fst acc) \<Longrightarrow>
     distinct (map fst (foldl (\<lambda>taskMap task. obj_set taskMap (t_id task) (seed_row task)) acc ts))"
  by (induction ts arbitrary: acc) (auto simp: keys_obj_set)

lemma seed_lookup_other:
  "k \<notin> t_id ` set ts \<Longrightarrow>
     map_of (foldl (\<lambda>taskMap task. obj_set taskMap (t_id task) (seed_row task)) acc ts) k = map_of acc k"
  by (induction ts arbitrary: acc) (auto simp: map_of_obj_set)

lemma seed_lookup_distinct:
  "distinct (map t_id ts) \<Longrightarrow> t \<in> set ts \<Longrightarrow>
     map_of (foldl (\<lambda>taskMap task. obj_set taskMap (t_id task) (seed_row task)) acc ts) (t_id t) =
       Some (seed_row t)"
  by (induction ts arbitrary: acc) (auto simp: map_of_obj_set seed_lookup_other)

lemma seed_lookup_cases:
  "map_of (foldl (\<lambda>taskMap task. obj_set taskMap (t_id task) (seed_row task)) acc ts) k = Some r \<Longrightarrow>
     map_of acc k = Some r \<or> (\<exists>t\<in>set ts. t_id t = k \<and> r = seed_row t)"
proof (induction ts arbitrary: acc)
  case Nil
  then show ?case by simp
next
  case (Cons t ts)
  from Cons.IH[of "obj_set acc (t_id t) (seed_row t)"] Cons.prems
  show ?case by (auto simp: map_of_obj_set split: if_splits)
qed

lemma init_keys: "fst ` set (init_taskMap ts) = t_id ` set ts"
  using seed_keys[of "[]" ts] by (simp add: init_taskMap_def)

lemma init_distinct: "distinct (map fst (init_taskMap ts))"
  using seed_distinct[of "[]" ts] by (simp add: init_taskMap_def)

lemma init_lookup_distinct:
  "distinct (map t_id ts) \<Longrightarrow> t \<in> set ts \<Longrightarrow> map_of (init_taskMap ts) (t_id t) = Some (seed_row t)"
  by (simp add: init_taskMap_def seed_lookup_distinct)

lemma init_lookup_seed:
  "map_of (init_taskMap ts) k = Some r \<Longrightarrow> \<exists>t\<in>set ts. t_id t = k \<and> r = seed_row t"
  using seed_lookup_cases[of "[]" ts k r] by (simp add: init_taskMap_def)

section \<open>Sorting\<close>

lemma set_insort_cmp: "set (insort_cmp cmp x ys) = insert x (set ys)"
  by (induction ys) auto

lemma set_sort_cmp: "set (sort_cmp cmp xs) = set xs"
  by (induction xs) (simp_all add: sort_cmp_def set_insort_cmp)

lemma count_insort_cmp: "length (filter P (insort_cmp cmp x ys)) = length (filter P (x # ys))"
  by (induction ys) auto

lemma count_sort_cmp: "length (filter P (sort_cmp cmp xs)) = length (filter P xs)"
  by (induction xs) (simp_all add: sort_cmp_def count_insort_cmp)

lemma sorted_insort_cmp:
  assumes tot: "\<And>a b. cmp a b \<le> 0 \<or> cmp b a \<le> 0"
    and trans: "\<And>a b c. cmp a b \<le> 0 \<Longrightarrow> cmp b c \<le> 0 \<Longrightarrow> cmp a c \<le> 0"
  shows "sorted_wrt (\<lambda>a b. cmp a b \<le> 0) ys \<Longrightarrow> sorted_wrt (\<lambda>a b. cmp a b \<le> 0) (insort_cmp cmp x ys)"
proof (induction ys)
  case Nil
  then show ?case by simp
next
  case (Cons y ys)
  show ?case
  proof (cases "cmp x y \<le> 0")
    case True
    with Cons.prems trans show ?thesis by auto
  next
    case False
    with tot have "cmp y x \<le> 0" by blast
    with False Cons show ?thesis by (auto simp: set_insort_cmp)
  qed
qed

lemma sorted_sort_cmp:
  assumes tot: "\<And>a b. cmp a b \<le> 0 \<or> cmp b a \<le> 0"
    and trans: "\<And>a b c. cmp a b \<le> 0 \<Longrightarrow> cmp b c \<le> 0 \<Longrightarrow> cmp a c \<le> 0"
  shows "sorted_wrt (\<lambda>a b. cmp a b \<le> 0) (sort_cmp cmp xs)"
  by (induction xs) (simp_all add: sort_cmp_def sorted_insort_cmp[OF tot trans])

lemma key_count:
  "distinct (map fst kvs) \<Longrightarrow> \<forall>(k', r)\<in>set kvs. f r = k' \<Longrightarrow> k \<in> fst ` set kvs \<Longrightarrow>
     length (filter (\<lambda>r. f r = k) (map snd kvs)) = 1"
proof (induction kvs)
  case Nil
  then show ?case by simp
next
  case (Cons kv kvs)
  obtain k' r where kv: "kv = (k', r)" by (cases kv)
  show ?case
  proof (cases "k' = k")
    case True
    with Cons.prems kv have "\<forall>(k'', r')\<in>set kvs. f r' \<noteq> k" by force
    then have "filter (\<lambda>r. f r = k) (map snd kvs) = []" by (auto simp: filter_empty_conv)
    with True Cons.prems kv show ?thesis by simp
  next
    case False
    with Cons kv show ?thesis by auto
  qed
qed

section \<open>Rows of the report\<close>

lemma final_rows:
  assumes "r \<in> set (tasks (aggregate lc E ts s e))"
  shows "\<exists>k r0. map_of (init_taskMap ts) k = Some r0 \<and> r = foldl (row_step s e k) r0 E"
proof -
  obtain tm dt where st: "foldl (process_entry s e) (init_taskMap ts, []) E = (tm, dt)"
    by (cases "foldl (process_entry s e) (init_taskMap ts, []) E")
  from assms st have "r \<in> snd ` set tm"
    by (simp add: aggregate_def set_sort_cmp)
  then obtain k where kr: "(k, r) \<in> set tm" by auto
  have "map fst tm = map fst (init_taskMap ts)"
    using fold_keys[of s e "(init_taskMap ts, [])" E] st by simp
  then have "distinct (map fst tm)" by (simp add: init_distinct)
  with kr have "map_of tm k = Some r" by simp
  moreover have "map_of tm k = map_option (\<lambda>row. foldl (row_step s e k) row E) (map_of (init_taskMap ts) k)"
    using fold_lookup[of s e "(init_taskMap ts, [])" E k] st by simp
  ultimately show ?thesis by auto
qed

lemma final_row_of_task:
  assumes "r \<in> set (tasks (aggregate lc E ts s e))"
  shows "\<exists>t\<in>set ts. r = foldl (row_step s e (t_id t)) (seed_row t) E"
proof -
  from final_rows[OF assms] obtain k r0
    where "map_of (init_taskMap ts) k = Some r0" "r = foldl (row_step s e k) r0 E" by blast
  with init_lookup_seed[of ts k r0] show ?thesis by auto
qed

lemma final_keyed:
  assumes st: "foldl (process_entry s e) (init_taskMap ts, []) E = (tm, dt)"
  shows "distinct (map fst tm)" and "fst ` set tm = t_id ` set ts"
    and "\<forall>(k, r)\<in>set tm. task_id r = k"
proof -
  have keys: "map fst tm = map fst (init_taskMap ts)"
    using fold_keys[of s e "(init_taskMap ts, [])" E] st by simp
  show d: "distinct (map fst tm)"
    by (simp add: keys init_distinct)
  have "set (map fst tm) = set (map fst (init_taskMap ts))"
    by (simp only: keys)
  then show "fst ` set tm = t_id ` set ts"
    by (simp add: init_keys)
  show "\<forall>(k, r)\<in>set tm. task_id r = k"
  proof clarify
    fix k r assume "(k, r) \<in> set tm"
    with d have "map_of tm k = Some r" by simp
    moreover have "map_of tm k = map_option (\<lambda>row. foldl (row_step s e k) row E) (map_of (init_taskMap ts) k)"
      using fold_lookup[of s e "(init_taskMap ts, [])" E k] st by simp
    ultimately obtain r0 where r0: "map_of (init_taskMap ts) k = Some r0" "r = foldl (row_step s e k) r0 E"
      by auto
    from init_lookup_seed[OF r0(1)] obtain t where "t_id t = k" "r0 = seed_row t" by blast
    with r0 show "task_id r = k"
      by (simp add: row_fold_fields seed_row_def)
  qed
qed

lemma final_row_distinct:
  assumes "distinct (map t_id ts)" "t \<in> set ts"
  shows "foldl (row_step s e (t_id t)) (seed_row t) E \<in> set (tasks (aggregate lc E ts s e))"
proof -
  obtain tm dt where st: "foldl (process_entry s e) (init_taskMap ts, []) E = (tm, dt)"
    by (cases "foldl (process_entry s e) (init_taskMap ts, []) E")
  have "map_of tm (t_id t) = map_option (\<lambda>row. foldl (row_step s e (t_id t)) row E) (map_of (init_taskMap ts) (t_id t))"
    using fold_lookup[of s e "(init_taskMap ts, [])" E "t_id t"] st by simp
  then have "map_of tm (t_id t) = Some (foldl (row_step s e (t_id t)) (seed_row t) E)"
    by (simp add: init_lookup_distinct[OF assms])
  then have "foldl (row_step s e (t_id t)) (seed_row t) E \<in> snd ` set tm"
    by (metis map_of_SomeD snd_conv image_eqI)
  with st show ?thesis
    by (simp add: aggregate_def set_sort_cmp)
qed

lemma row_cmp_le:
  "row_cmp lc a b \<le> 0 \<longleftrightarrow>
     total_minutes a > total_minutes b \<or>
     (total_minutes a = total_minutes b \<and> lc (task_title a) (task_title b) \<le> 0)"
  by (auto simp: row_cmp_def)

section \<open>Properties of the aggregator\<close>

text \<open>
  Claim C2. For every list of entries, list of tasks and date range, \<open>week_total\<close> is the
  sum of the minutes of exactly the entries whose effective date lies in the range, each
  counted once; the total of a day is the sum over the in-range entries of that day,
  whatever their task; and every row of the report belongs to a task of the input and
  totals the in-range entries of that task only, so an entry of a task that is not in the
  input adds to the day and week totals and to no row.
\<close>

theorem aggregate_totals:
  "week_total (aggregate lc E ts s e) = sum_list (map e_minutes (filter (in_range s e) E)) \<and>
   (\<forall>d. cell (daily_totals (aggregate lc E ts s e)) d =
          sum_list (map e_minutes (filter (\<lambda>x. in_range s e x \<and> entryDate x = d) E))) \<and>
   (\<forall>r\<in>set (tasks (aggregate lc E ts s e)).
      task_id r \<in> t_id ` set ts \<and>
      total_minutes r =
        sum_list (map e_minutes (filter (\<lambda>x. in_range s e x \<and> e_task_id x = task_id r) E)))"
proof -
  obtain tm dt where st: "foldl (process_entry s e) (init_taskMap ts, []) E = (tm, dt)"
    by (cases "foldl (process_entry s e) (init_taskMap ts, []) E")
  have wk: "week_total (aggregate lc E ts s e) = sum_list (map snd dt)"
    using st by (simp add: aggregate_def foldl_plus_sum)
  have dt: "daily_totals (aggregate lc E ts s e) = dt"
    using st by (simp add: aggregate_def)
  have a: "week_total (aggregate lc E ts s e) = sum_list (map e_minutes (filter (in_range s e) E))"
    using fold_sum[of s e "(init_taskMap ts, [])" E] st wk by simp
  have b: "cell (daily_totals (aggregate lc E ts s e)) d =
          sum_list (map e_minutes (filter (\<lambda>x. in_range s e x \<and> entryDate x = d) E))" for d
    using fold_cell[of s e "(init_taskMap ts, [])" E d] st dt by (simp add: cell_def)
  have c: "task_id r \<in> t_id ` set ts \<and>
      total_minutes r =
        sum_list (map e_minutes (filter (\<lambda>x. in_range s e x \<and> e_task_id x = task_id r) E))"
    if "r \<in> set (tasks (aggregate lc E ts s e))" for r
  proof -
    from final_row_of_task[OF that] obtain t
      where t: "t \<in> set ts" "r = foldl (row_step s e (t_id t)) (seed_row t) E" by blast
    then have "task_id r = t_id t"
      by (simp add: row_fold_fields seed_row_def)
    with t show ?thesis
      by (simp add: row_fold_total seed_row_def)
  qed
  from a b c show ?thesis by blast
qed

theorem aggregate_totals_witness:
  "week_total (aggregate codeUnitCompare scenario_entries scenario_tasks ''2024-01-01'' ''2024-01-02'') = 97 \<and>
   cell (daily_totals (aggregate codeUnitCompare scenario_entries scenario_tasks ''2024-01-01'' ''2024-01-02''))
     ''2024-01-01'' = 82 \<and>
   (\<exists>r\<in>set (tasks (aggregate codeUnitCompare scenario_entries scenario_tasks ''2024-01-01'' ''2024-01-02'')).
      task_id r = ''A'' \<and> total_minutes r = 60)"
proof -
  let ?r = "aggregate codeUnitCompare scenario_entries scenario_tasks ''2024-01-01'' ''2024-01-02''"
  note main = aggregate_totals[of codeUnitCompare scenario_entries scenario_tasks "''2024-01-01''" "''2024-01-02''"]
  have s1: "sum_list (map e_minutes (filter (in_range ''2024-01-01'' ''2024-01-02'') scenario_entries)) = 97"
    by code_simp
  have s2: "sum_list (map e_minutes (filter (\<lambda>x. in_range ''2024-01-01'' ''2024-01-02'' x \<and> entryDate x = ''2024-01-01'') scenario_entries)) = 82"
    by code_simp
  have s3: "sum_list (map e_minutes (filter (\<lambda>x. in_range ''2024-01-01'' ''2024-01-02'' x \<and> e_task_id x = ''A'') scenario_entries)) = 60"
    by code_simp
  have "\<exists>r\<in>set (tasks ?r). task_id r = ''A''"
    by code_simp
  then obtain r where r: "r \<in> set (tasks ?r)" and ra: "task_id r = ''A''"
    by blast
  have "total_minutes r = sum_list (map e_minutes (filter (\<lambda>x. in_range ''2024-01-01'' ''2024-01-02'' x \<and> e_task_id x = task_id r) scenario_entries))"
    by (rule main[THEN conjunct2, THEN conjunct2, THEN bspec, OF r, THEN conjunct2])
  then have t: "total_minutes r = 60"
    unfolding ra s3 .
  have w: "week_total ?r = 97"
    using main[THEN conjunct1] unfolding s1 .
  have c: "cell (daily_totals ?r) ''2024-01-01'' = 82"
    using main[THEN conjunct2, THEN conjunct1, THEN spec, of "''2024-01-01''"] unfolding s2 .
  from r ra t have "\<exists>r\<in>set (tasks ?r). task_id r = ''A'' \<and> total_minutes r = 60"
    by blast
  with w c show ?thesis by blast
qed

text \<open>
  Claim C6. Every task of the input has exactly one row in the report, whether or not it
  has entries in range; when the task ids are distinct the row carries the task's title,
  status and assignee; and the row of a task without in-range entries has
  \<open>total_minutes = 0\<close> and an empty \<open>daily_time\<close>.
\<close>

theorem aggregate_rows_per_task:
  assumes "t \<in> set ts"
  shows "length (filter (\<lambda>r. task_id r = t_id t) (tasks (aggregate lc E ts s e))) = 1 \<and>
     (distinct (map t_id ts) \<longrightarrow>
        (\<exists>r\<in>set (tasks (aggregate lc E ts s e)).
           task_id r = t_id t \<and> task_title r = t_title t \<and> task_status r = t_status t \<and>
           assignee_id r = t_assignee_id t)) \<and>
     ((\<forall>x\<in>set E. \<not> (in_range s e x \<and> e_task_id x = t_id t)) \<longrightarrow>
        (\<forall>r\<in>set (tasks (aggregate lc E ts s e)).
           task_id r = t_id t \<longrightarrow> total_minutes r = 0 \<and> daily_time r = []))"
proof -
  obtain tm dt where st: "foldl (process_entry s e) (init_taskMap ts, []) E = (tm, dt)"
    by (cases "foldl (process_entry s e) (init_taskMap ts, []) E")
  have rows: "tasks (aggregate lc E ts s e) = sort_cmp (row_cmp lc) (map snd tm)"
    using st by (simp add: aggregate_def)
  from assms final_keyed(2)[OF st] have "t_id t \<in> fst ` set tm" by blast
  with final_keyed(1)[OF st] final_keyed(3)[OF st]
  have "length (filter (\<lambda>r. task_id r = t_id t) (map snd tm)) = 1"
    by (rule key_count)
  then have once: "length (filter (\<lambda>r. task_id r = t_id t) (tasks (aggregate lc E ts s e))) = 1"
    by (simp add: rows count_sort_cmp)
  have fields: "\<exists>r\<in>set (tasks (aggregate lc E ts s e)).
           task_id r = t_id t \<and> task_title r = t_title t \<and> task_status r = t_status t \<and>
           assignee_id r = t_assignee_id t"
    if d: "distinct (map t_id ts)"
  proof -
    let ?r = "foldl (row_step s e (t_id t)) (seed_row t) E"
    have "?r \<in> set (tasks (aggregate lc E ts s e))"
      using d assms by (rule final_row_distinct)
    moreover have "task_id ?r = t_id t \<and> task_title ?r = t_title t \<and> task_status ?r = t_status t \<and>
           assignee_id ?r = t_assignee_id t"
      by (simp add: row_fold_fields seed_row_def)
    ultimately show ?thesis by blast
  qed
  have empty: "total_minutes r = 0 \<and> daily_time r = []"
    if none: "\<forall>x\<in>set E. \<not> (in_range s e x \<and> e_task_id x = t_id t)"
      and r: "r \<in> set (tasks (aggregate lc E ts s e))" and id: "task_id r = t_id t" for r
  proof -
    from final_row_of_task[OF r] obtain u
      where u: "u \<in> set ts" "r = foldl (row_step s e (t_id u)) (seed_row u) E" by blast
    then have "task_id r = t_id u"
      by (simp add: row_fold_fields seed_row_def)
    with id have "t_id u = t_id t" by simp
    with none u have "r = seed_row u"
      by (simp add: row_fold_untouched)
    then show ?thesis
      by (simp add: seed_row_def)
  qed
  from once fields empty show ?thesis by blast
qed

theorem aggregate_rows_per_task_witness:
  "length (filter (\<lambda>r. task_id r = ''B'')
     (tasks (aggregate codeUnitCompare scenario_entries scenario_tasks ''2024-01-02'' ''2024-01-02''))) = 1 \<and>
   (\<exists>r\<in>set (tasks (aggregate codeUnitCompare scenario_entries scenario_tasks ''2024-01-02'' ''2024-01-02'')).
      task_id r = ''B'' \<and> task_title r = ''beta'' \<and> total_minutes r = 0 \<and> daily_time r = [])"
proof -
  let ?t = "\<lparr>t_id = ''B'', t_title = ''beta'', t_status = ''todo'', t_assignee_id = ''u''\<rparr>"
  have m: "?t \<in> set scenario_tasks"
    by (simp add: scenario_tasks_def)
  have d: "distinct (map t_id scenario_tasks)"
    by (simp add: scenario_tasks_def)
  have n: "\<forall>x\<in>set scenario_entries. \<not> (in_range ''2024-01-02'' ''2024-01-02'' x \<and> e_task_id x = t_id ?t)"
    by code_simp
  note main = aggregate_rows_per_task[OF m, of codeUnitCompare scenario_entries "''2024-01-02''" "''2024-01-02''"]
  have a: "length (filter (\<lambda>r. task_id r = ''B'')
     (tasks (aggregate codeUnitCompare scenario_entries scenario_tasks ''2024-01-02'' ''2024-01-02''))) = 1"
    using main[THEN conjunct1] by simp
  have b: "\<exists>r\<in>set (tasks (aggregate codeUnitCompare scenario_entries scenario_tasks ''2024-01-02'' ''2024-01-02'')).
      task_id r = ''B'' \<and> task_title r = ''beta''"
    using main[THEN conjunct2, THEN conjunct1, THEN mp, OF d] by auto
  have c: "\<forall>r\<in>set (tasks (aggregate codeUnitCompare scenario_entries scenario_tasks ''2024-01-02'' ''2024-01-02'')).
      task_id r = ''B'' \<longrightarrow> total_minutes r = 0 \<and> daily_time r = []"
    using main[THEN conjunct2, THEN conjunct2, THEN mp, OF n] by auto
  from b c have "\<exists>r\<in>set (tasks (aggregate codeUnitCompare scenario_entries scenario_tasks ''2024-01-02'' ''2024-01-02'')).
      task_id r = ''B'' \<and> task_title r = ''beta'' \<and> total_minutes r = 0 \<and> daily_time r = []"
    by blast
  with a show ?thesis by (rule conjI)
qed

text \<open>
  Claim C7. The rows of the report are ordered by \<open>total_minutes\<close> descending, and rows
  with equal totals by \<open>task_title\<close> ascending under \<open>localeCompare\<close>. The locale's
  comparison is a parameter, assumed to be a consistent comparator (total and
  transitive), as every collation is.
\<close>

theorem aggregate_sorted:
  assumes tot: "\<forall>a b. lc a b \<le> 0 \<or> lc b a \<le> 0"
    and trans: "\<forall>a b c. lc a b \<le> 0 \<longrightarrow> lc b c \<le> 0 \<longrightarrow> lc a c \<le> 0"
  shows "sorted_wrt
           (\<lambda>a b. total_minutes a > total_minutes b \<or>
                  (total_minutes a = total_minutes b \<and> lc (task_title a) (task_title b) \<le> 0))
           (tasks (aggregate lc E ts s e))"
proof -
  obtain tm dt where st: "foldl (process_entry s e) (init_taskMap ts, []) E = (tm, dt)"
    by (cases "foldl (process_entry s e) (init_taskMap ts, []) E")
  have t1: "row_cmp lc a b \<le> 0 \<or> row_cmp lc b a \<le> 0" for a b
    using tot by (auto simp: row_cmp_def)
  have t2: "row_cmp lc a b \<le> 0 \<Longrightarrow> row_cmp lc b c \<le> 0 \<Longrightarrow> row_cmp lc a c \<le> 0" for a b c
    using trans[rule_format, of "task_title a" "task_title b" "task_title c"]
    by (auto simp: row_cmp_def split: if_splits)
  have "sorted_wrt (\<lambda>a b. row_cmp lc a b \<le> 0) (sort_cmp (row_cmp lc) (map snd tm))"
    using t1 t2 by (rule sorted_sort_cmp)
  then show ?thesis
    using st by (simp add: aggregate_def row_cmp_le)
qed

theorem aggregate_sorted_witness:
  "sorted_wrt
     (\<lambda>a b. total_minutes a > total_minutes b \<or>
            (total_minutes a = total_minutes b \<and> codeUnitCompare (task_title a) (task_title b) \<le> 0))
     (tasks (aggregate codeUnitCompare scenario_entries scenario_tasks ''2024-01-01'' ''2024-01-02'')) \<and>
   map task_id (tasks (aggregate codeUnitCompare scenario_entries scenario_tasks ''2024-01-01'' ''2024-01-02''))
     = [''A'', ''B'']"
proof -
  have tot: "\<forall>a b. codeUnitCompare a b \<le> 0 \<or> codeUnitCompare b a \<le> 0"
    by (auto simp: codeUnitCompare_def)
  have trans: "\<forall>a b c. codeUnitCompare a b \<le> 0 \<longrightarrow> codeUnitCompare b c \<le> 0 \<longrightarrow> codeUnitCompare a c \<le> 0"
    by (auto simp: codeUnitCompare_def split: if_splits)
  have ids: "map task_id (tasks (aggregate codeUnitCompare scenario_entries scenario_tasks ''2024-01-01'' ''2024-01-02''))
     = [''A'', ''B'']"
    by code_simp
  from aggregate_sorted[OF tot trans, of scenario_entries scenario_tasks "''2024-01-01''" "''2024-01-02''"] ids
  show ?thesis by (rule conjI)
qed

section \<open>The server actions and the entries they leave\<close>

lemma Math_round_minutes:
  "Math_round (real_of_int d / (1000 * 60)) = (d + 30000) div 60000"
proof -
  have "real_of_int d / (1000 * 60) + 1 / 2 = real_of_int (d + 30000) / real_of_int 60000"
    by (simp add: field_simps)
  then have "Math_round (real_of_int d / (1000 * 60)) = \<lfloor>real_of_int (d + 30000) / real_of_int 60000\<rfloor>"
    by (simp only: Math_round_def)
  then show ?thesis
    by (simp only: floor_divide_of_int_eq)
qed

lemma column_integer_Some: "column_integer n = Some m \<Longrightarrow> n = Num (of_int m)"
  by (cases n) (auto simp: column_integer_def split: if_splits)

lemma column_integer_of_int: "column_integer (Num (of_int m)) = Some m"
  by (simp add: column_integer_def)

lemma floor_one_stored:
  assumes "column_integer (floor_one n) = Some m"
  shows "1 \<le> m" and "num_less n (Num 1) \<Longrightarrow> m = 1"
proof -
  from assms have f: "floor_one n = Num (of_int m)"
    by (rule column_integer_Some)
  show "m = 1" if "num_less n (Num 1)"
    using f that by (simp add: floor_one_def)
  show "1 \<le> m"
  proof (cases "num_less n (Num 1)")
    case True
    with f show ?thesis by (simp add: floor_one_def)
  next
    case False
    with f have "n = Num (of_int m)" by (simp add: floor_one_def)
    with False show ?thesis by simp
  qed
qed

lemma addManualTimeEntry_result:
  assumes "addManualTimeEntry w b input = (r, b')"
  shows "(\<exists>err. r = Inl err \<and> b' = b) \<or>
         (\<exists>user d m. r = Inr (insert_row w (in_task_id input) user m d None None) \<and>
            auth_user b = Some user \<and>
            column_integer (floor_one (in_minutes input)) = Some m \<and>
            b' = b\<lparr>time_entries := time_entries b @
                    [insert_row w (in_task_id input) user m d None None]\<rparr>)"
  using assms
  by (auto simp: addManualTimeEntry_def Let_def split: option.splits if_splits)

lemma stopTimer_result:
  assumes "stopTimer w b taskId startedAt = (r, b')"
  shows "(\<exists>err. r = Inl err \<and> b' = b) \<or>
         (\<exists>user. r = Inr (insert_row w taskId user
                      (max 1 (Math_round (real_of_int (now w - startedAt) / (1000 * 60))))
                      None (Some startedAt) (Some (now w))) \<and>
            auth_user b = Some user \<and>
            b' = b\<lparr>time_entries := time_entries b @
                    [insert_row w taskId user
                      (max 1 (Math_round (real_of_int (now w - startedAt) / (1000 * 60))))
                      None (Some startedAt) (Some (now w))]\<rparr>)"
  using assms
  by (auto simp: stopTimer_def Let_def max_def split: option.splits if_splits)

lemma stopTimer_success:
  assumes "auth_user b = Some user"
    and "single (filter (\<lambda>t. t_id t = taskId) (task_rows b)) = Some task"
    and "t_assignee_id task = user" and "insert_error w = None"
  shows "\<exists>e. stopTimer w b taskId startedAt = (Inr e, b\<lparr>time_entries := time_entries b @ [e]\<rparr>)"
  using assms by (simp add: stopTimer_def Let_def)

lemma addManualTimeEntry_success:
  assumes "authorized b user (in_task_id input)" and "insert_error w = None"
    and "column_integer (floor_one (in_minutes input)) = Some m"
  shows "\<exists>e. addManualTimeEntry w b input = (Inr e, b\<lparr>time_entries := time_entries b @ [e]\<rparr>) \<and>
             e_minutes e = m"
  using assms
  by (auto simp: authorized_def addManualTimeEntry_def Let_def insert_row_def split: option.splits)

lemma stopTimer_authorized:
  assumes "authorized b user taskId" and "insert_error w = None"
  shows "\<exists>e. stopTimer w b taskId startedAt = (Inr e, b\<lparr>time_entries := time_entries b @ [e]\<rparr>)"
  using assms
  by (auto simp: authorized_def stopTimer_def Let_def split: option.splits)

text \<open>A request that is NaN or an infinity passes the floor as it is and writes no row.\<close>

lemma addManualTimeEntry_not_a_number:
  assumes "in_minutes input = NaN \<or> in_minutes input = PosInf"
  shows "floor_one (in_minutes input) = in_minutes input"
    and "\<exists>err. addManualTimeEntry w b input = (Inl err, b)"
  using assms
  by (auto simp: floor_one_def addManualTimeEntry_def Let_def column_integer_def
           split: option.splits)

lemma deleteTimeEntry_subset:
  "set (time_entries (snd (deleteTimeEntry w b i))) \<subseteq> set (time_entries b)"
  by (auto simp: deleteTimeEntry_def split: option.splits if_splits)

lemma delete_each_subset:
  "set (time_entries (fst (delete_each w b es))) \<subseteq> set (time_entries b)"
proof (induction es arbitrary: b)
  case Nil
  then show ?case by simp
next
  case (Cons entry rest)
  obtain r b1 where d: "deleteTimeEntry w b (e_id entry) = (r, b1)"
    by (cases "deleteTimeEntry w b (e_id entry)")
  then have "set (time_entries b1) \<subseteq> set (time_entries b)"
    using deleteTimeEntry_subset[of w b "e_id entry"] by simp
  moreover have "set (time_entries (fst (delete_each w b1 rest))) \<subseteq> set (time_entries b1)"
    by (rule Cons.IH)
  ultimately show ?case
    using d by (auto split: prod.splits)
qed

lemma add_adjustment_entries:
  "e \<in> set (time_entries (fst (add_adjustment w b taskId date mins))) \<Longrightarrow>
     e \<in> set (time_entries b) \<or> 1 \<le> e_minutes e"
proof -
  assume a: "e \<in> set (time_entries (fst (add_adjustment w b taskId date mins)))"
  let ?input = "\<lparr> in_task_id = taskId, in_minutes = mins,
               in_description = Some (adjustment_description date) \<rparr>"
  obtain r b1 where r: "addManualTimeEntry w b ?input = (r, b1)"
    by (cases "addManualTimeEntry w b ?input")
  from addManualTimeEntry_result[OF r] show ?thesis
  proof
    assume "\<exists>err. r = Inl err \<and> b1 = b"
    with a r show ?thesis by (auto simp: add_adjustment_def)
  next
    assume "\<exists>user d m. r = Inr (insert_row w (in_task_id ?input) user m d None None) \<and>
            auth_user b = Some user \<and>
            column_integer (floor_one (in_minutes ?input)) = Some m \<and>
            b1 = b\<lparr>time_entries := time_entries b @
                    [insert_row w (in_task_id ?input) user m d None None]\<rparr>"
    then obtain user d m where
      r': "r = Inr (insert_row w (in_task_id ?input) user m d None None)" and
      c: "column_integer (floor_one (in_minutes ?input)) = Some m" and
      b1: "b1 = b\<lparr>time_entries := time_entries b @
                    [insert_row w (in_task_id ?input) user m d None None]\<rparr>"
      by blast
    from floor_one_stored(1)[OF c] have "1 \<le> m" .
    with a r r' b1 show ?thesis
      by (auto simp: add_adjustment_def insert_row_def)
  qed
qed

lemma reduce_cell_entries:
  assumes "e \<in> set (time_entries (fst (reduce_cell w b taskId date tot)))"
  shows "e \<in> set (time_entries b) \<or> 1 \<le> e_minutes e"
proof (cases "auth_user b")
  case None
  with assms show ?thesis by (simp add: reduce_cell_def)
next
  case (Some user)
  define st where "st = (case selectTimeEntries w b taskId user of
                   Some timeEntries \<Rightarrow> delete_each w b (entriesToDelete w date timeEntries)
                 | None \<Rightarrow> (b, []))"
  have sub: "set (time_entries (fst st)) \<subseteq> set (time_entries b)"
    unfolding st_def using delete_each_subset by (auto split: option.splits)
  have res: "fst (reduce_cell w b taskId date tot) =
      (if num_less (Num 0) tot then fst (add_adjustment w (fst st) taskId date tot) else fst st)"
    using Some by (simp add: reduce_cell_def st_def split: prod.splits)
  show ?thesis
  proof (cases "num_less (Num 0) tot")
    case True
    with assms res have "e \<in> set (time_entries (fst (add_adjustment w (fst st) taskId date tot)))"
      by simp
    from add_adjustment_entries[OF this] sub show ?thesis by blast
  next
    case False
    with assms res sub show ?thesis by auto
  qed
qed

text \<open>The three ways \<open>handleCellSave\<close> leaves the backend: as it was, after the reducing
  branch, or after the adding branch.\<close>

lemma handleCellSave_backend:
  assumes "editingCell p = Some (taskId, date)"
  shows "fst (snd (handleCellSave w p b)) = b \<or>
         (\<exists>tot. fst (snd (handleCellSave w p b)) = fst (reduce_cell w b taskId date tot)) \<or>
         (\<exists>diff. fst (snd (handleCellSave w p b)) = fst (add_adjustment w b taskId date diff))"
proof -
  define t where "t = parsedMinutes (editValue p)"
  define t' where "t' = (if num_less (Num 0) t \<and> num_less t (Num 1) then Num 1 else t)"
  define d where "d = num_minus t' (Num (of_int (currentMinutes p taskId date)))"
  have "fst (snd (handleCellSave w p b)) =
      (if num_less t (Num 0) then b
       else if strict_neq d (Num 0)
       then (if num_less d (Num 0) then fst (reduce_cell w b taskId date t')
             else fst (add_adjustment w b taskId date d))
       else b)"
    using assms
    by (simp add: handleCellSave_def Let_def t_def t'_def d_def split: prod.splits)
  then show ?thesis
    by (cases "num_less t (Num 0)"; cases "strict_neq d (Num 0)"; cases "num_less d (Num 0)") auto
qed

lemma handleCellSave_entries:
  assumes "e \<in> set (time_entries (fst (snd (handleCellSave w p b))))"
  shows "e \<in> set (time_entries b) \<or> 1 \<le> e_minutes e"
proof (cases "editingCell p")
  case None
  with assms show ?thesis by (simp add: handleCellSave_def)
next
  case (Some c)
  obtain taskId date where c: "c = (taskId, date)" by (cases c)
  from handleCellSave_backend[OF Some[unfolded c], of w b]
  consider (same) "fst (snd (handleCellSave w p b)) = b"
    | (less) tot where "fst (snd (handleCellSave w p b)) = fst (reduce_cell w b taskId date tot)"
    | (more) diff where "fst (snd (handleCellSave w p b)) = fst (add_adjustment w b taskId date diff)"
    by blast
  then show ?thesis
  proof cases
    case same
    with assms show ?thesis by simp
  next
    case less
    with assms have "e \<in> set (time_entries (fst (reduce_cell w b taskId date tot)))" by simp
    then show ?thesis by (rule reduce_cell_entries)
  next
    case more
    with assms have "e \<in> set (time_entries (fst (add_adjustment w b taskId date diff)))" by simp
    then show ?thesis by (rule add_adjustment_entries)
  qed
qed

text \<open>An entry added by hand has no \<open>started_at\<close>: the aggregator attributes it to
  the day it was created, whatever day the caller had in mind.\<close>

lemma manual_entry_dated_at_creation:
  assumes "addManualTimeEntry w b input = (Inr e, b')"
  shows "entryDate e = toISODate (now w)"
  using addManualTimeEntry_result[OF assms]
  by (auto simp: insert_row_def entryDate_def)

text \<open>An edit whose text stands for NaN is not negative and differs from every cell: the
  handler asks for NaN minutes, the request fails and nothing is written.\<close>

lemma cell_save_not_a_number:
  assumes "editingCell p = Some (taskId, date)" and "parsedMinutes (editValue p) = NaN"
  shows "fst (snd (handleCellSave w p b)) = b"
    and "\<exists>err. snd (snd (handleCellSave w p b)) =
           [CallAddManualTimeEntry taskId NaN (adjustment_description date), Alert err,
            CallGetTimesheetData (startDateStr p) (endDateStr p)]"
proof -
  let ?input = "\<lparr> in_task_id = taskId, in_minutes = NaN,
               in_description = Some (adjustment_description date) \<rparr>"
  from addManualTimeEntry_not_a_number(2)[of ?input w b] obtain err
    where r: "addManualTimeEntry w b ?input = (Inl err, b)"
    by auto
  then have a: "add_adjustment w b taskId date NaN =
      (b, [CallAddManualTimeEntry taskId NaN (adjustment_description date), Alert err])"
    by (simp add: add_adjustment_def)
  have l: "snd (loadTimesheetData w p b) = [CallGetTimesheetData (startDateStr p) (endDateStr p)]"
    by (simp add: loadTimesheetData_def split: sum.splits)
  show "fst (snd (handleCellSave w p b)) = b"
    using assms a
    by (simp add: handleCellSave_def Let_def num_minus_def strict_neq_def split: prod.splits)
  have "snd (snd (handleCellSave w p b)) =
           [CallAddManualTimeEntry taskId NaN (adjustment_description date), Alert err,
            CallGetTimesheetData (startDateStr p) (endDateStr p)]"
    using assms a l
    by (cases "loadTimesheetData w p b")
       (simp add: handleCellSave_def Let_def num_minus_def strict_neq_def)
  then show "\<exists>err. snd (snd (handleCellSave w p b)) =
           [CallAddManualTimeEntry taskId NaN (adjustment_description date), Alert err,
            CallGetTimesheetData (startDateStr p) (endDateStr p)]"
    by blast
qed

text \<open>The two delete loops. That of \<open>handleCellSave\<close> calls the delete of every selected
  entry, whatever the calls return, and shows nothing; that of \<open>handleDeleteTimeForDay\<close>
  either does the same or stops at a failing call with an alert.\<close>

lemma delete_each_calls:
  "snd (delete_each w b es) = map (\<lambda>entry. CallDeleteTimeEntry (e_id entry)) es"
proof (induction es arbitrary: b)
  case Nil
  then show ?case by simp
next
  case (Cons entry rest)
  obtain r b1 where d: "deleteTimeEntry w b (e_id entry) = (r, b1)"
    by (cases "deleteTimeEntry w b (e_id entry)")
  obtain b2 evs where e: "delete_each w b1 rest = (b2, evs)"
    by (cases "delete_each w b1 rest")
  from Cons.IH[of b1] e have "evs = map (\<lambda>entry. CallDeleteTimeEntry (e_id entry)) rest"
    by simp
  with d e show ?case by simp
qed

lemma delete_until_error_calls:
  "snd (delete_until_error w b es) = map (\<lambda>entry. CallDeleteTimeEntry (e_id entry)) es \<or>
   (\<exists>k err. k < length es \<and>
      snd (delete_until_error w b es) =
        map (\<lambda>entry. CallDeleteTimeEntry (e_id entry)) (take (Suc k) es) @ [Alert err])"
proof (induction es arbitrary: b)
  case Nil
  then show ?case by simp
next
  case (Cons entry rest)
  obtain r b1 where d: "deleteTimeEntry w b (e_id entry) = (r, b1)"
    by (cases "deleteTimeEntry w b (e_id entry)")
  show ?case
  proof (cases r)
    case (Inl err)
    with d have "snd (delete_until_error w b (entry # rest)) =
        map (\<lambda>entry. CallDeleteTimeEntry (e_id entry)) (take (Suc 0) (entry # rest)) @ [Alert err]"
      by simp
    then show ?thesis by blast
  next
    case (Inr ok)
    with d have s: "snd (delete_until_error w b (entry # rest)) =
        CallDeleteTimeEntry (e_id entry) # snd (delete_until_error w b1 rest)"
      by (simp split: prod.splits)
    from Cons.IH[of b1] show ?thesis
    proof
      assume "snd (delete_until_error w b1 rest) = map (\<lambda>entry. CallDeleteTimeEntry (e_id entry)) rest"
      with s show ?thesis by simp
    next
      assume "\<exists>k err. k < length rest \<and>
        snd (delete_until_error w b1 rest) =
          map (\<lambda>entry. CallDeleteTimeEntry (e_id entry)) (take (Suc k) rest) @ [Alert err]"
      then obtain k err where "k < length rest"
        "snd (delete_until_error w b1 rest) =
          map (\<lambda>entry. CallDeleteTimeEntry (e_id entry)) (take (Suc k) rest) @ [Alert err]"
        by blast
      with s have "Suc k < length (entry # rest) \<and>
        snd (delete_until_error w b (entry # rest)) =
          map (\<lambda>entry. CallDeleteTimeEntry (e_id entry)) (take (Suc (Suc k)) (entry # rest)) @ [Alert err]"
        by simp
      then show ?thesis by blast
    qed
  qed
qed

text \<open>The filter of both handlers selects the entries whose instant lies in a window of
  local time that starts at midnight and is 23 hours 59 minutes 59 seconds long.\<close>

lemma entriesToDelete_window:
  assumes "parseISODate date = Some day"
  shows "entriesToDelete w date es =
     filter (\<lambda>entry.
        day * msPerDay - utcOffsetMinutes w * 60000
          \<le> (case e_started_at entry of Some s \<Rightarrow> s | None \<Rightarrow> e_created_at entry) \<and>
        (case e_started_at entry of Some s \<Rightarrow> s | None \<Rightarrow> e_created_at entry)
          \<le> day * msPerDay + 86399000 - utcOffsetMinutes w * 60000) es"
  using assms by (simp add: entriesToDelete_def localDateTime_def Let_def)

section \<open>Properties of the writers\<close>

text \<open>
  Claim C9. Every writer of time entries persists at least one minute, and exactly one
  for a request below one minute. For \<open>addManualTimeEntry\<close>: an authorized request of
  less than 1 (a fraction such as 0.5, zero, a negative number) with no database error
  appends one row of exactly 1 minute; every successful call appends one row, whose
  minutes are the request floored at 1 and are at least 1; a failed call writes nothing.
  For \<open>stopTimer\<close>: an authorized stop from a valid start instant with no database error
  appends one row of at least 1 minute, and of exactly 1 when less than a minute has
  elapsed; the same holds
  of every successful call, and a failed call writes nothing. For \<open>handleCellSave\<close>:
  every row that is in the table afterwards and was not there before has at least 1
  minute. The requests are JavaScript numbers: NaN and \<open>Infinity\<close> are not below 1,
  pass the floor unchanged and are not integers, so the integer column takes no row for
  them and the call fails.
\<close>

theorem writers_floor_one_minute:
  "(authorized b user (in_task_id input) \<and> insert_error w = None \<and>
      num_less (in_minutes input) (Num 1) \<longrightarrow>
      (\<exists>e. addManualTimeEntry w b input = (Inr e, b\<lparr>time_entries := time_entries b @ [e]\<rparr>) \<and>
           e_minutes e = 1)) \<and>
   (\<forall>e b'. addManualTimeEntry w b input = (Inr e, b') \<longrightarrow>
      time_entries b' = time_entries b @ [e] \<and> 1 \<le> e_minutes e \<and>
      floor_one (in_minutes input) = Num (of_int (e_minutes e))) \<and>
   (\<forall>err b'. addManualTimeEntry w b input = (Inl err, b') \<longrightarrow> b' = b) \<and>
   (authorized b user taskId \<and> insert_error w = None \<longrightarrow>
      (\<exists>e. stopTimer w b taskId startedAt = (Inr e, b\<lparr>time_entries := time_entries b @ [e]\<rparr>) \<and>
           1 \<le> e_minutes e \<and> (now w - startedAt < 60000 \<longrightarrow> e_minutes e = 1))) \<and>
   (\<forall>e b'. stopTimer w b taskId startedAt = (Inr e, b') \<longrightarrow>
      time_entries b' = time_entries b @ [e] \<and> 1 \<le> e_minutes e \<and>
      (now w - startedAt < 60000 \<longrightarrow> e_minutes e = 1)) \<and>
   (\<forall>err b'. stopTimer w b taskId startedAt = (Inl err, b') \<longrightarrow> b' = b) \<and>
   (\<forall>e\<in>set (time_entries (fst (snd (handleCellSave w p b)))).
      e \<in> set (time_entries b) \<or> 1 \<le> e_minutes e) \<and>
   (in_minutes input = NaN \<or> in_minutes input = PosInf \<longrightarrow>
      floor_one (in_minutes input) = in_minutes input \<and>
      (\<exists>err. addManualTimeEntry w b input = (Inl err, b)))"
proof -
  have a1: "\<exists>e. addManualTimeEntry w b input = (Inr e, b\<lparr>time_entries := time_entries b @ [e]\<rparr>) \<and>
           e_minutes e = 1"
    if "authorized b user (in_task_id input)" "insert_error w = None"
      "num_less (in_minutes input) (Num 1)"
  proof -
    from that(3) have "floor_one (in_minutes input) = Num (of_int 1)"
      by (simp add: floor_one_def)
    then have "column_integer (floor_one (in_minutes input)) = Some 1"
      by (simp only: column_integer_of_int)
    from addManualTimeEntry_success[OF that(1) that(2) this] show ?thesis .
  qed
  have a2: "time_entries b' = time_entries b @ [e] \<and> 1 \<le> e_minutes e \<and>
      floor_one (in_minutes input) = Num (of_int (e_minutes e))"
    if r: "addManualTimeEntry w b input = (Inr e, b')" for e b'
  proof -
    from addManualTimeEntry_result[OF r] obtain user d m where
      e: "e = insert_row w (in_task_id input) user m d None None" and
      c: "column_integer (floor_one (in_minutes input)) = Some m" and
      b': "b' = b\<lparr>time_entries := time_entries b @
                    [insert_row w (in_task_id input) user m d None None]\<rparr>"
      by auto
    from e have m: "e_minutes e = m" by (simp add: insert_row_def)
    from floor_one_stored(1)[OF c] column_integer_Some[OF c] e b' m show ?thesis
      by simp
  qed
  have a3: "b' = b" if "addManualTimeEntry w b input = (Inl err, b')" for err b'
    using addManualTimeEntry_result[OF that] by auto
  have s2: "time_entries b' = time_entries b @ [e] \<and> 1 \<le> e_minutes e \<and>
      (now w - startedAt < 60000 \<longrightarrow> e_minutes e = 1)"
    if r: "stopTimer w b taskId startedAt = (Inr e, b')" for e b'
  proof -
    from stopTimer_result[OF r] obtain user where
      e: "e = insert_row w taskId user
                (max 1 (Math_round (real_of_int (now w - startedAt) / (1000 * 60))))
                None (Some startedAt) (Some (now w))" and
      b': "b' = b\<lparr>time_entries := time_entries b @ [e]\<rparr>"
      by auto
    have m: "e_minutes e = max 1 ((now w - startedAt + 30000) div 60000)"
      using e by (simp only: Math_round_minutes) (simp add: insert_row_def)
    have "(now w - startedAt + 30000) div 60000 \<le> 1" if "now w - startedAt < 60000"
      using that by linarith
    with m b' show ?thesis by auto
  qed
  have s1: "\<exists>e. stopTimer w b taskId startedAt = (Inr e, b\<lparr>time_entries := time_entries b @ [e]\<rparr>) \<and>
           1 \<le> e_minutes e \<and> (now w - startedAt < 60000 \<longrightarrow> e_minutes e = 1)"
    if "authorized b user taskId" "insert_error w = None"
  proof -
    from stopTimer_authorized[OF that] obtain e where
      r: "stopTimer w b taskId startedAt = (Inr e, b\<lparr>time_entries := time_entries b @ [e]\<rparr>)"
      by blast
    from s2[OF r] r show ?thesis by blast
  qed
  have s3: "b' = b" if "stopTimer w b taskId startedAt = (Inl err, b')" for err b'
    using stopTimer_result[OF that] by auto
  have n: "floor_one (in_minutes input) = in_minutes input \<and>
      (\<exists>err. addManualTimeEntry w b input = (Inl err, b))"
    if "in_minutes input = NaN \<or> in_minutes input = PosInf"
    using addManualTimeEntry_not_a_number[OF that] by blast
  have h: "\<forall>e\<in>set (time_entries (fst (snd (handleCellSave w p b)))).
      e \<in> set (time_entries b) \<or> 1 \<le> e_minutes e"
    using handleCellSave_entries by blast
  from a1 a2 a3 s1 s2 s3 h n show ?thesis by blast
qed

theorem writers_floor_one_minute_witness:
  "(\<exists>e. addManualTimeEntry scenario_world scenario_backend
           \<lparr>in_task_id = ''A'', in_minutes = Num (1 / 2), in_description = None\<rparr> =
             (Inr e, scenario_backend\<lparr>time_entries := time_entries scenario_backend @ [e]\<rparr>) \<and>
         e_minutes e = 1) \<and>
   (\<exists>e. stopTimer scenario_world scenario_backend ''A'' (now scenario_world - 10000) =
             (Inr e, scenario_backend\<lparr>time_entries := time_entries scenario_backend @ [e]\<rparr>) \<and>
         e_minutes e = 1) \<and>
   (\<exists>e\<in>set (time_entries (fst (snd (handleCellSave scenario_world
        (scenario_page (Some (''A'', ''2024-01-01'')) ''0:30'') scenario_backend)))).
      e_id e = ''e5'' \<and> 1 \<le> e_minutes e) \<and>
   (\<exists>err. addManualTimeEntry scenario_world scenario_backend
           \<lparr>in_task_id = ''A'', in_minutes = NaN, in_description = None\<rparr> =
             (Inl err, scenario_backend))"
proof -
  let ?input = "\<lparr>in_task_id = ''A'', in_minutes = Num (1 / 2), in_description = None\<rparr>"
  let ?nan = "\<lparr>in_task_id = ''A'', in_minutes = NaN, in_description = None\<rparr>"
  let ?h = "handleCellSave scenario_world (scenario_page (Some (''A'', ''2024-01-01'')) ''0:30'') scenario_backend"
  note main = writers_floor_one_minute[of scenario_backend "''u''" ?input scenario_world "''A''"
      "now scenario_world - 10000" "scenario_page (Some (''A'', ''2024-01-01'')) ''0:30''"]
  have au: "authorized scenario_backend ''u'' ''A''"
    by (simp add: authorized_def scenario_backend_def scenario_tasks_def single_def)
  have i: "insert_error scenario_world = None"
    by (simp add: scenario_world_def)
  have lt: "num_less (in_minutes ?input) (Num 1)"
    by simp
  have au': "authorized scenario_backend ''u'' (in_task_id ?input)"
    using au by simp
  from main[THEN conjunct1, THEN mp, OF conjI[OF au' conjI[OF i lt]]]
  have first: "\<exists>e. addManualTimeEntry scenario_world scenario_backend ?input =
             (Inr e, scenario_backend\<lparr>time_entries := time_entries scenario_backend @ [e]\<rparr>) \<and>
         e_minutes e = 1" .
  have el: "now scenario_world - (now scenario_world - 10000) < 60000"
    by simp
  from main[THEN conjunct2, THEN conjunct2, THEN conjunct2, THEN conjunct1, THEN mp, OF conjI[OF au i]] el
  have second: "\<exists>e. stopTimer scenario_world scenario_backend ''A'' (now scenario_world - 10000) =
             (Inr e, scenario_backend\<lparr>time_entries := time_entries scenario_backend @ [e]\<rparr>) \<and>
         e_minutes e = 1"
    by blast
  have "\<exists>e\<in>set (time_entries (fst (snd ?h))). e_id e = ''e5''"
    by code_simp
  then obtain x where x: "x \<in> set (time_entries (fst (snd ?h)))" "e_id x = ''e5''"
    by blast
  have "\<forall>e\<in>set scenario_entries. e_id e \<noteq> ''e5''"
    by code_simp
  with x have "x \<notin> set (time_entries scenario_backend)"
    by (auto simp: scenario_backend_def)
  with main[THEN conjunct2, THEN conjunct2, THEN conjunct2, THEN conjunct2, THEN conjunct2,
            THEN conjunct2, THEN conjunct1, THEN bspec, OF x(1)]
  have one: "1 \<le> e_minutes x"
    by blast
  have nn: "in_minutes ?nan = NaN \<or> in_minutes ?nan = PosInf"
    by simp
  from writers_floor_one_minute[of scenario_backend "''u''" ?nan scenario_world "''A''"
      "now scenario_world - 10000" "scenario_page (Some (''A'', ''2024-01-01'')) ''0:30''",
      THEN conjunct2, THEN conjunct2, THEN conjunct2, THEN conjunct2, THEN conjunct2,
      THEN conjunct2, THEN conjunct2, THEN mp, OF nn]
  have fourth: "\<exists>err. addManualTimeEntry scenario_world scenario_backend ?nan =
             (Inl err, scenario_backend)"
    by blast
  from x one have third: "\<exists>e\<in>set (time_entries (fst (snd ?h))). e_id e = ''e5'' \<and> 1 \<le> e_minutes e"
    by blast
  from first second third fourth show ?thesis by blast
qed

text \<open>
  Claim C10. The row a successful \<open>stopTimer\<close> appends has for \<open>minutes\<close> the elapsed
  milliseconds between \<open>startedAt\<close> and the stop instant divided by 60000 and rounded to
  the nearest integer, a half going up (which is \<open>(elapsed + 30000) div 60000\<close>), and at
  least 1; its \<open>started_at\<close> and \<open>ended_at\<close> are the two instants. The quotient is taken
  exactly, as the double-precision quotient is for every span a timer can run.
\<close>

theorem stopTimer_rounds_to_nearest_minute:
  assumes "stopTimer w b taskId startedAt = (Inr e, b')"
  shows "e_minutes e = max 1 (Math_round (real_of_int (now w - startedAt) / 60000)) \<and>
         Math_round (real_of_int (now w - startedAt) / 60000) = (now w - startedAt + 30000) div 60000 \<and>
         e_task_id e = taskId \<and> e_started_at e = Some startedAt \<and> e_ended_at e = Some (now w) \<and>
         time_entries b' = time_entries b @ [e]"
  using stopTimer_result[OF assms] Math_round_minutes[of "now w - startedAt"]
  by (auto simp: insert_row_def)

theorem stopTimer_rounds_to_nearest_minute_witness:
  "(\<exists>e b'. stopTimer scenario_world scenario_backend ''A'' (now scenario_world - 89000) = (Inr e, b') \<and>
            e_minutes e = 1 \<and> e_started_at e = Some (now scenario_world - 89000) \<and>
            e_ended_at e = Some (now scenario_world)) \<and>
   (\<exists>e b'. stopTimer scenario_world scenario_backend ''A'' (now scenario_world - 150000) = (Inr e, b') \<and>
            e_minutes e = 3)"
proof -
  have u: "auth_user scenario_backend = Some ''u''"
    by (simp add: scenario_backend_def)
  have t: "single (filter (\<lambda>t. t_id t = ''A'') (task_rows scenario_backend)) =
      Some \<lparr>t_id = ''A'', t_title = ''alpha'', t_status = ''in_progress'', t_assignee_id = ''u''\<rparr>"
    by (simp add: scenario_backend_def scenario_tasks_def single_def)
  have i: "insert_error scenario_world = None"
    by (simp add: scenario_world_def)
  have ok: "\<exists>e. stopTimer scenario_world scenario_backend ''A'' s =
      (Inr e, scenario_backend\<lparr>time_entries := time_entries scenario_backend @ [e]\<rparr>)" for s
    by (rule stopTimer_success[OF u t _ i]) simp
  from ok[of "now scenario_world - 89000"] obtain e1 b1
    where r1: "stopTimer scenario_world scenario_backend ''A'' (now scenario_world - 89000) = (Inr e1, b1)"
    by blast
  from ok[of "now scenario_world - 150000"] obtain e2 b2
    where r2: "stopTimer scenario_world scenario_backend ''A'' (now scenario_world - 150000) = (Inr e2, b2)"
    by blast
  from stopTimer_rounds_to_nearest_minute[OF r1]
  have m1: "e_minutes e1 = 1 \<and> e_started_at e1 = Some (now scenario_world - 89000) \<and>
            e_ended_at e1 = Some (now scenario_world)"
    by simp
  from stopTimer_rounds_to_nearest_minute[OF r2]
  have m2: "e_minutes e2 = 3"
    by simp
  from r1 m1 r2 m2 show ?thesis by blast
qed

section \<open>Properties of the cell reconciler\<close>

text \<open>
  Claim C5, as the code has it. An edit whose text stands for a negative number of
  minutes (hours times 60 plus minutes in the arithmetic of the page, each part read by
  \<open>parseInt\<close>, a part that does not parse counting as 0) is rejected with the alert
  "Time cannot be negative": no remote call is made, and the page and the entries stay
  as they are. Every other edit, well formed or not, is taken: the handler runs to its
  end and closes the editor.
\<close>

theorem negative_rejected:
  assumes "editingCell p = Some (taskId, date)"
  shows "(num_less (parsedMinutes (editValue p)) (Num 0) \<longrightarrow>
            handleCellSave w p b = (p, b, [Alert ''Time cannot be negative''])) \<and>
         (\<not> num_less (parsedMinutes (editValue p)) (Num 0) \<longrightarrow>
            editingCell (fst (handleCellSave w p b)) = None)"
proof -
  have l: "editingCell (fst (loadTimesheetData w p b1)) = editingCell p" for b1
    by (simp add: loadTimesheetData_def split: sum.splits)
  have "editingCell (fst (handleCellSave w p b)) = None"
    if "\<not> num_less (parsedMinutes (editValue p)) (Num 0)"
    using assms that
    by (simp add: handleCellSave_def Let_def split: prod.splits)
  moreover have "handleCellSave w p b = (p, b, [Alert ''Time cannot be negative''])"
    if "num_less (parsedMinutes (editValue p)) (Num 0)"
    using assms that by (simp add: handleCellSave_def Let_def)
  ultimately show ?thesis by blast
qed

theorem negative_rejected_witness:
  "parsedMinutes ''-1:30'' = Num (- 30) \<and>
   handleCellSave scenario_world (scenario_page (Some (''A'', ''2024-01-01'')) ''-1:30'') scenario_backend =
     (scenario_page (Some (''A'', ''2024-01-01'')) ''-1:30'', scenario_backend,
      [Alert ''Time cannot be negative'']) \<and>
   parsedMinutes ''abc'' = Num 0 \<and>
   editingCell (fst (handleCellSave scenario_world
      (scenario_page (Some (''A'', ''2024-01-01'')) ''abc'') scenario_backend)) = None"
proof -
  let ?p = "scenario_page (Some (''A'', ''2024-01-01'')) ''-1:30''"
  let ?q = "scenario_page (Some (''A'', ''2024-01-01'')) ''abc''"
  have pm: "parsedMinutes ''-1:30'' = Num (- 30)"
    by code_simp
  have qm: "parsedMinutes ''abc'' = Num 0"
    by code_simp
  have e: "editingCell ?p = Some (''A'', ''2024-01-01'')"
    by (simp add: scenario_page_def)
  have e': "editingCell ?q = Some (''A'', ''2024-01-01'')"
    by (simp add: scenario_page_def)
  have v: "editValue ?p = ''-1:30''"
    by (simp add: scenario_page_def)
  have v': "editValue ?q = ''abc''"
    by (simp add: scenario_page_def)
  have n: "num_less (parsedMinutes (editValue ?p)) (Num 0)"
    unfolding v pm by simp
  have n': "\<not> num_less (parsedMinutes (editValue ?q)) (Num 0)"
    unfolding v' qm by simp
  from negative_rejected[OF e, of scenario_world scenario_backend, THEN conjunct1, THEN mp, OF n]
  have first: "handleCellSave scenario_world ?p scenario_backend =
      (?p, scenario_backend, [Alert ''Time cannot be negative''])" .
  from negative_rejected[OF e', of scenario_world scenario_backend, THEN conjunct2, THEN mp, OF n']
  have second: "editingCell (fst (handleCellSave scenario_world ?q scenario_backend)) = None" .
  from pm first qm second show ?thesis by blast
qed

text \<open>
  Claim C5 as stated also asks that malformed text is rejected. It is not: the text
  \<open>abc\<close> in the cell of task A on 2024-01-01, which shows 45 minutes, reads as 0
  minutes, and the handler goes on to read the entries and to delete entry \<open>e1\<close>.
\<close>

theorem malformed_not_rejected_counterexample:
  "parsedMinutes ''abc'' = Num 0 \<and>
   snd (snd (handleCellSave scenario_world (scenario_page (Some (''A'', ''2024-01-01'')) ''abc'') scenario_backend)) =
     [AuthGetUser, SelectTimeEntries ''A'' ''u'', CallDeleteTimeEntry ''e1'',
      CallGetTimesheetData ''2023-12-31'' ''2024-01-06''] \<and>
   map e_id (time_entries (fst (snd (handleCellSave scenario_world
      (scenario_page (Some (''A'', ''2024-01-01'')) ''abc'') scenario_backend)))) = [''e2'', ''e3'', ''e4'']"
  by code_simp

text \<open>
  Claim C8. An edit whose text stands, in the arithmetic of the page, for the minutes the
  cell already shows makes no remote call and leaves the entries as they are.
\<close>

theorem unchanged_cell_no_calls:
  assumes "editingCell p = Some (taskId, date)"
    and "parsedMinutes (editValue p) = Num (of_int (currentMinutes p taskId date))"
  shows "filter is_remote (snd (snd (handleCellSave w p b))) = [] \<and>
         fst (snd (handleCellSave w p b)) = b"
proof -
  let ?c = "currentMinutes p taskId date"
  have d: "num_minus (Num (of_int ?c)) (Num (of_int ?c)) = Num 0"
    by (simp add: num_minus_def to_double_def)
  have n: "\<not> strict_neq (Num 0) (Num 0)"
    by (simp add: strict_neq_def)
  have f: "\<not> (num_less (Num 0) (Num (of_int ?c)) \<and> num_less (Num (of_int ?c)) (Num 1))"
  proof
    assume "num_less (Num 0) (Num (of_int ?c)) \<and> num_less (Num (of_int ?c)) (Num 1)"
    then have "0 < ?c \<and> ?c < 1" by simp
    then show False by linarith
  qed
  show ?thesis
    using assms d n f by (simp add: handleCellSave_def Let_def)
qed

theorem unchanged_cell_no_calls_witness:
  "parsedMinutes ''0:45'' = Num 45 \<and>
   currentMinutes (scenario_page (Some (''A'', ''2024-01-01'')) ''0:45'') ''A'' ''2024-01-01'' = 45 \<and>
   filter is_remote (snd (snd (handleCellSave scenario_world
      (scenario_page (Some (''A'', ''2024-01-01'')) ''0:45'') scenario_backend))) = [] \<and>
   fst (snd (handleCellSave scenario_world
      (scenario_page (Some (''A'', ''2024-01-01'')) ''0:45'') scenario_backend)) = scenario_backend"
proof -
  let ?p = "scenario_page (Some (''A'', ''2024-01-01'')) ''0:45''"
  have pm: "parsedMinutes ''0:45'' = Num 45"
    by code_simp
  have cm: "currentMinutes ?p ''A'' ''2024-01-01'' = 45"
    by code_simp
  have e: "editingCell ?p = Some (''A'', ''2024-01-01'')"
    by (simp add: scenario_page_def)
  have v: "editValue ?p = ''0:45''"
    by (simp add: scenario_page_def)
  have eq: "parsedMinutes (editValue ?p) = Num (of_int (currentMinutes ?p ''A'' ''2024-01-01''))"
    unfolding v pm cm by simp
  from pm cm unchanged_cell_no_calls[OF e eq, of scenario_world scenario_backend]
  show ?thesis by blast
qed

text \<open>
  Claim C1 asks that after an edit the cell shows the target and no other cell has
  changed. In the scenario the cell of task A on 2024-01-01 shows 45 minutes and is
  edited on 2024-01-03. Raised to \<open>1:00\<close>, it still shows 45 afterwards, and the cell of
  2024-01-03 has gone from 0 to 15: the added entry carries no date, so it is attributed
  to the day it was created. Lowered to \<open>0:30\<close>, it shows 0 and the cell of 2024-01-03
  shows 30.
\<close>

theorem cell_edit_lands_on_creation_day:
  "parsedMinutes ''1:00'' = Num 60 \<and>
   currentMinutes (scenario_page (Some (''A'', ''2024-01-01'')) ''1:00'') ''A'' ''2024-01-01'' = 45 \<and>
   currentMinutes (scenario_page (Some (''A'', ''2024-01-01'')) ''1:00'') ''A'' ''2024-01-03'' = 0 \<and>
   currentMinutes (fst (handleCellSave scenario_world
       (scenario_page (Some (''A'', ''2024-01-01'')) ''1:00'') scenario_backend)) ''A'' ''2024-01-01'' = 45 \<and>
   currentMinutes (fst (handleCellSave scenario_world
       (scenario_page (Some (''A'', ''2024-01-01'')) ''1:00'') scenario_backend)) ''A'' ''2024-01-03'' = 15 \<and>
   parsedMinutes ''0:30'' = Num 30 \<and>
   currentMinutes (fst (handleCellSave scenario_world
       (scenario_page (Some (''A'', ''2024-01-01'')) ''0:30'') scenario_backend)) ''A'' ''2024-01-01'' = 0 \<and>
   currentMinutes (fst (handleCellSave scenario_world
       (scenario_page (Some (''A'', ''2024-01-01'')) ''0:30'') scenario_backend)) ''A'' ''2024-01-03'' = 30"
  by code_simp

text \<open>
  Claim C3 asks that the entries the two handlers delete for a day are those whose
  effective date, as the aggregator computes it, is that day. The entry \<open>late_entry\<close>
  started at 23:59:59.500 UTC on 2024-01-01: the aggregator attributes it to 2024-01-01,
  a browser on UTC does not select it for that day (its window ends at 23:59:59.000), so
  the bulk delete leaves it in place, and a browser two hours east of UTC selects it for
  2024-01-02.
\<close>

theorem day_filter_is_not_the_effective_date:
  "e_task_id late_entry = ''A'' \<and> entryDate late_entry = ''2024-01-01'' \<and>
   entriesToDelete scenario_world ''2024-01-01'' [late_entry] = [] \<and>
   map e_id (time_entries (fst (snd (handleDeleteTimeForDay scenario_world (scenario_page None [])
       (scenario_backend\<lparr>time_entries := [late_entry]\<rparr>) ''A'' ''2024-01-01'')))) = [''e6''] \<and>
   entriesToDelete (scenario_world\<lparr>utcOffsetMinutes := 120\<rparr>) ''2024-01-02'' [late_entry] = [late_entry]"
  by code_simp

text \<open>
  Claim C4 asks that a failing delete ends the batch and is shown to the user. With two
  entries of task A on 2024-01-01 and a database that refuses to delete the first,
  \<open>handleCellSave\<close> lowering the cell to \<open>0:30\<close> still calls the delete of the second
  entry and the insert, and shows no alert; the first entry is still there afterwards.
  \<open>handleDeleteTimeForDay\<close> on the same state stops after the failed delete and shows
  the error.
\<close>

theorem cell_save_continues_after_failed_delete:
  "fst (deleteTimeEntry failing_world two_entry_backend ''e1'') = Inl ''permission denied'' \<and>
   snd (snd (handleCellSave failing_world (two_entry_page (Some (''A'', ''2024-01-01'')) ''0:30'')
               two_entry_backend)) =
     [AuthGetUser, SelectTimeEntries ''A'' ''u'', CallDeleteTimeEntry ''e1'', CallDeleteTimeEntry ''e7'',
      CallAddManualTimeEntry ''A'' (Num 30) ''Timesheet entry for 2024-01-01'',
      CallGetTimesheetData ''2023-12-31'' ''2024-01-06''] \<and>
   map e_id (time_entries (fst (snd (handleCellSave failing_world
       (two_entry_page (Some (''A'', ''2024-01-01'')) ''0:30'') two_entry_backend)))) =
     [''e1'', ''e2'', ''e3'', ''e4'', ''e5''] \<and>
   snd (snd (handleDeleteTimeForDay failing_world (two_entry_page None []) two_entry_backend
               ''A'' ''2024-01-01'')) =
     [AuthGetUser, SelectTimeEntries ''A'' ''u'', CallDeleteTimeEntry ''e1'', Alert ''permission denied'',
      CallGetTimesheetData ''2023-12-31'' ''2024-01-06'']"
  by code_simp

end
